theory Spec2Isabelle
  imports Complex_Main
begin

section \<open>Backward reachability over quantized inputs: the model of backreach.py\<close>

text \<open>
  The development embeds \<^verbatim>\<open>src/backreach.py\<close>: the class \<^verbatim>\<open>State\<close> and the search
  driver \<^verbatim>\<open>backreach_single\<close>. Exceptions are values of the type \<open>error\<close>; a function
  that can raise returns \<open>error + 'a\<close>. The modules \<^verbatim>\<open>star\<close>, \<^verbatim>\<open>dubins\<close>,
  \<^verbatim>\<open>util\<close>, \<^verbatim>\<open>networks\<close> and \<^verbatim>\<open>settings\<close> are imported by the source; what
  it uses of them is collected in the record \<open>providers\<close> and passed to every function.
  The floating-point arithmetic that the source does itself is binary64 arithmetic, modelled
  below with its rounding, its infinities and its NaN. \<^verbatim>\<open>numpy\<close> arrays holding the
  constraint representation are an opaque type \<open>'m\<close> with the product \<open>matmul\<close> for \<^verbatim>\<open>@\<close>, and
  the points that the providers return are lists of the real numbers that their (finite)
  coordinates denote. Plotting (\<^verbatim>\<open>plot=False\<close>), timing and printing are left out.
\<close>

subsection \<open>Errors and Python indexing\<close>

text \<open>
  The exceptions of the source. \<^verbatim>\<open>floor\<close> and \<^verbatim>\<open>ceil\<close> raise \<open>OverflowError\<close> on an
  infinite float and \<open>ValueError\<close> on a NaN. \<open>NoSuchObject\<close> is no exception of Python: it
  is the outcome of the store model below on a store that lacks an object it is asked to
  follow, which no Python state does.
\<close>

datatype error = AssertionError | IndexError | ValueError | OverflowError | NoSuchObject

text \<open>\<^verbatim>\<open>xs[-k]\<close> for \<open>k > 0\<close>: the \<open>k\<close>-th element from the end, \<^verbatim>\<open>IndexError\<close> when the list is shorter.\<close>

definition neg_index :: "'a list \<Rightarrow> nat \<Rightarrow> error + 'a" where
  "neg_index xs k =
     (if 0 < k \<and> k \<le> length xs then Inr (xs ! (length xs - k)) else Inl IndexError)"

subsection \<open>Binary64 arithmetic\<close>

text \<open>
  A value of \<^verbatim>\<open>numpy.float64\<close>: a finite number, one of the two infinities, or NaN. The
  finite values are the reals \<open>k * 2 ^ e\<close> with \<open>\<bar>k\<bar> < 2 ^ 53\<close>, \<open>- 1074 \<le> e\<close> and magnitude below
  \<open>2 ^ 1024\<close>; the result of every operation is rounded to the nearest of them, ties to the
  even one. The two zeros are one value here: the source divides by the position quantum
  only, never by a zero that it has computed, and nothing else tells them apart.
\<close>

datatype float64 = Float real | PosInf | NegInf | NaN

text \<open>
  The binary exponent of a number: the \<open>e\<close> with \<open>2 ^ e \<le> \<bar>x\<bar> < 2 ^ (e + 1)\<close>, counted by
  halving or doubling and kept between \<open>- 1074\<close> and \<open>1024\<close>.
\<close>

fun exponent_up :: "nat \<Rightarrow> real \<Rightarrow> int" where
  "exponent_up 0 x = 0"
| "exponent_up (Suc n) x = (if x < 2 then 0 else exponent_up n (x / 2) + 1)"

fun exponent_down :: "nat \<Rightarrow> real \<Rightarrow> int" where
  "exponent_down 0 x = 0"
| "exponent_down (Suc n) x = (if 1 \<le> x then 0 else exponent_down n (2 * x) - 1)"

definition exponent :: "real \<Rightarrow> int" where
  "exponent x = (if 1 \<le> \<bar>x\<bar> then exponent_up 1024 \<bar>x\<bar> else exponent_down 1074 \<bar>x\<bar>)"

text \<open>
  The distance between neighbouring binary64 numbers at \<open>x\<close>: 52 binary places below the
  exponent, and \<open>2 ^ - 1074\<close> for the subnormal numbers.
\<close>

definition ulp :: "real \<Rightarrow> real" where
  "ulp x = 2 powi (max (exponent x - 52) (- 1074))"

text \<open>Rounding to the nearest integer, a tie to the even one.\<close>

definition round_half_even :: "real \<Rightarrow> int" where
  "round_half_even x =
     (let f = \<lfloor>x\<rfloor>; d = x - of_int f in
      if d < 1 / 2 then f else if 1 / 2 < d then f + 1 else if even f then f else f + 1)"

text \<open>The nearest multiple of \<open>ulp x\<close>: its magnitude, then with the sign of \<open>x\<close>.\<close>

definition magnitude :: "real \<Rightarrow> real" where
  "magnitude x = of_int (round_half_even (\<bar>x\<bar> / ulp x)) * ulp x"

definition nearest :: "real \<Rightarrow> real" where
  "nearest x = sgn x * magnitude x"

definition overflow_bound :: real where
  "overflow_bound = 2 ^ 1024"

text \<open>The binary64 value of a real result: it overflows to an infinity.\<close>

definition round64 :: "real \<Rightarrow> float64" where
  "round64 x =
     (let y = nearest x in
      if overflow_bound \<le> \<bar>y\<bar> then (if 0 < y then PosInf else NegInf) else Float y)"

text \<open>The real number is a binary64 number.\<close>

definition is_float64 :: "real \<Rightarrow> bool" where
  "is_float64 x = (round64 x = Float x)"

text \<open>The operations \<^verbatim>\<open>-x\<close>, \<^verbatim>\<open>x + y\<close>, \<^verbatim>\<open>x - y\<close>, \<^verbatim>\<open>x * y\<close>, \<^verbatim>\<open>x / y\<close> and \<^verbatim>\<open>x > y\<close> of \<^verbatim>\<open>numpy.float64\<close>, which raise nothing.\<close>

fun fneg :: "float64 \<Rightarrow> float64" where
  "fneg (Float a) = Float (- a)"
| "fneg PosInf = NegInf"
| "fneg NegInf = PosInf"
| "fneg NaN = NaN"

fun fadd :: "float64 \<Rightarrow> float64 \<Rightarrow> float64" where
  "fadd (Float a) (Float b) = round64 (a + b)"
| "fadd NaN y = NaN"
| "fadd x NaN = NaN"
| "fadd PosInf NegInf = NaN"
| "fadd NegInf PosInf = NaN"
| "fadd PosInf y = PosInf"
| "fadd x PosInf = PosInf"
| "fadd NegInf y = NegInf"
| "fadd x NegInf = NegInf"

definition fsub :: "float64 \<Rightarrow> float64 \<Rightarrow> float64" where
  "fsub x y = fadd x (fneg y)"

fun fmul :: "float64 \<Rightarrow> float64 \<Rightarrow> float64" where
  "fmul (Float a) (Float b) = round64 (a * b)"
| "fmul NaN y = NaN"
| "fmul x NaN = NaN"
| "fmul (Float a) y = (if a = 0 then NaN else if 0 < a then y else fneg y)"
| "fmul x (Float b) = (if b = 0 then NaN else if 0 < b then x else fneg x)"
| "fmul PosInf y = y"
| "fmul NegInf y = fneg y"

fun fdiv :: "float64 \<Rightarrow> float64 \<Rightarrow> float64" where
  "fdiv (Float a) (Float b) =
     (if b = 0 then (if a = 0 then NaN else if 0 < a then PosInf else NegInf)
      else round64 (a / b))"
| "fdiv NaN y = NaN"
| "fdiv x NaN = NaN"
| "fdiv (Float a) y = Float 0"
| "fdiv x (Float b) = (if 0 \<le> b then x else fneg x)"
| "fdiv x y = NaN"

fun fgt :: "float64 \<Rightarrow> float64 \<Rightarrow> bool" where
  "fgt (Float a) (Float b) = (b < a)"
| "fgt NaN y = False"
| "fgt x NaN = False"
| "fgt PosInf y = (y \<noteq> PosInf)"
| "fgt x PosInf = False"
| "fgt x NegInf = (x \<noteq> NegInf)"
| "fgt NegInf y = False"

text \<open>\<^verbatim>\<open>math.floor\<close> and \<^verbatim>\<open>math.ceil\<close> of a float: an integer, or the exception.\<close>

fun py_floor :: "float64 \<Rightarrow> error + int" where
  "py_floor (Float a) = Inr \<lfloor>a\<rfloor>"
| "py_floor NaN = Inl ValueError"
| "py_floor x = Inl OverflowError"

fun py_ceil :: "float64 \<Rightarrow> error + int" where
  "py_ceil (Float a) = Inr \<lceil>a\<rceil>"
| "py_ceil NaN = Inl ValueError"
| "py_ceil x = Inl OverflowError"

text \<open>
  \<^verbatim>\<open>u @ v\<close> on one-dimensional arrays of finite binary64 numbers: the inner product, with
  every product and every sum rounded, \<^verbatim>\<open>ValueError\<close> on a shape mismatch. The sum is
  accumulated from the left; \<^verbatim>\<open>numpy\<close> leaves the order to its linear algebra routine, and
  for the vectors of the source, which have at most two entries that are not zero, every
  order gives the same value.
\<close>

fun fdot :: "float64 \<Rightarrow> real list \<Rightarrow> real list \<Rightarrow> float64" where
  "fdot acc (a # u) (b # v) = fdot (fadd acc (fmul (Float a) (Float b))) u v"
| "fdot acc u v = acc"

definition dot :: "real list \<Rightarrow> real list \<Rightarrow> error + float64" where
  "dot u v = (if length u = length v then Inr (fdot (Float 0) u v) else Inl ValueError)"

subsection \<open>The polytope and the external providers\<close>

text \<open>\<^verbatim>\<open>Star(box, a_mat, b_vec)\<close>: the source reads and writes \<^verbatim>\<open>a_mat\<close> and \<^verbatim>\<open>b_vec\<close>.\<close>

record ('m, 'b) Star =
  box :: 'b
  a_mat :: 'm
  b_vec :: 'm

text \<open>
  What the source calls in the imported modules. \<open>is_feasible\<close>, \<open>minimize_vec\<close> and
  \<open>domain_to_range\<close> are the methods of \<^verbatim>\<open>Star\<close>; \<open>X_OWN\<close>, \<open>Y_OWN\<close>, \<open>X_INT\<close>,
  \<open>NUM_VARS\<close> its class constants; \<open>pos\<close> and \<open>cmd_quantum_list\<close> are \<^verbatim>\<open>Quanta.pos\<close> and
  \<^verbatim>\<open>Quanta.cmd_quantum_list\<close>; \<open>matmul\<close> is the array product \<^verbatim>\<open>@\<close>. The quantum, the
  time step and the coordinates of the points are finite numbers, given by their values.
\<close>

record ('m, 'b) providers =
  is_feasible :: "('m, 'b) Star \<Rightarrow> real list option"
  minimize_vec :: "('m, 'b) Star \<Rightarrow> real list \<Rightarrow> real list"
  domain_to_range :: "('m, 'b) Star \<Rightarrow> real list \<Rightarrow> real list"
  make_qstar :: "('m, 'b) Star \<Rightarrow> int \<times> int \<Rightarrow> ('m, 'b) Star"
  is_init_qx_qy :: "int \<Rightarrow> int \<Rightarrow> bool"
  get_cmd :: "int \<Rightarrow> int \<Rightarrow> int \<Rightarrow> int \<Rightarrow> int \<Rightarrow> int \<Rightarrow> int"
  get_time_elapse_mat :: "int \<Rightarrow> real \<Rightarrow> 'm"
  init_to_constraints :: "int \<times> int \<Rightarrow> int \<times> int \<Rightarrow> int \<Rightarrow> int \<Rightarrow> int \<Rightarrow> 'b \<times> 'm \<times> 'm"
  matmul :: "'m \<Rightarrow> 'm \<Rightarrow> 'm"
  pos :: real
  cmd_quantum_list :: "int list"
  X_OWN :: nat
  Y_OWN :: nat
  X_INT :: nat
  NUM_VARS :: nat

subsection \<open>The class State\<close>

record ('m, 'b) State =
  qtheta1 :: int
  qv_own :: int
  qv_int :: int
  alpha_prev_list :: "int list"
  star :: "('m, 'b) Star"
  domain_witness :: "real list option"
  state_id :: int

text \<open>
  \<^verbatim>\<open>assign_state_id\<close>: the class attribute \<^verbatim>\<open>State.next_state_id\<close> is the last
  argument and is returned incremented.
\<close>

definition assign_state_id :: "('m, 'b) State \<Rightarrow> int \<Rightarrow> ('m, 'b) State \<times> int" where
  "assign_state_id s next_state_id = (s\<lparr>state_id := next_state_id\<rparr>, next_state_id + 1)"

text \<open>
  \<^verbatim>\<open>State.__init__\<close>. The heading level has the type \<open>int\<close>, so the assertion
  \<^verbatim>\<open>isinstance(qtheta1, int)\<close> holds by typing.
\<close>

definition State_init ::
  "('m, 'b) providers \<Rightarrow> int \<Rightarrow> int \<Rightarrow> int \<Rightarrow> int \<Rightarrow> ('m, 'b) Star \<Rightarrow> int
     \<Rightarrow> error + (('m, 'b) State \<times> int)" where
  "State_init P alpha_prev qth qvo qvi st next_state_id =
     (let w = is_feasible P st in
      if w = None then Inl AssertionError
      else Inr (assign_state_id
        \<lparr>qtheta1 = qth, qv_own = qvo, qv_int = qvi, alpha_prev_list = [alpha_prev],
         star = st, domain_witness = w, state_id = - 1\<rparr> next_state_id))"

text \<open>
  \<^verbatim>\<open>State.copy\<close> on values: \<^verbatim>\<open>deepcopy\<close> of a value is the value. The version on a
  store, where sharing is visible, is \<open>heap_copy\<close> below.
\<close>

definition copy ::
  "('m, 'b) State \<Rightarrow> ('m, 'b) Star option \<Rightarrow> real list option \<Rightarrow> int
     \<Rightarrow> error + (('m, 'b) State \<times> int)" where
  "copy s new_star new_domain_witness next_state_id =
     (if new_star \<noteq> None \<and> new_domain_witness = None then Inl AssertionError
      else
        let (rv, n) = assign_state_id s next_state_id in
        case new_star of
          None \<Rightarrow> Inr (rv, n)
        | Some st \<Rightarrow> Inr (rv\<lparr>star := st, domain_witness := new_domain_witness\<rparr>, n))"

text \<open>\<^verbatim>\<open>State.backstep(forward, forward_alpha_prev)\<close>; it mutates the state, so the model returns it.\<close>

definition backstep ::
  "('m, 'b) providers \<Rightarrow> bool \<Rightarrow> int \<Rightarrow> ('m, 'b) State \<Rightarrow> error + ('m, 'b) State" where
  "backstep P forward forward_alpha_prev s =
     (case (if forward then Inr forward_alpha_prev else neg_index (alpha_prev_list s) 1) of
        Inl e \<Rightarrow> Inl e
      | Inr cmd \<Rightarrow>
          if \<not> (0 \<le> cmd \<and> cmd \<le> 4) then Inl AssertionError
          else
            let mat = get_time_elapse_mat P cmd (if \<not> forward then - 1 else 1);
                st = (star s)\<lparr>a_mat := matmul P mat (a_mat (star s)),
                              b_vec := matmul P mat (b_vec (star s))\<rparr>
            in if \<not> nat cmd < length (cmd_quantum_list P) then Inl IndexError
               else
                 let delta_q_theta = cmd_quantum_list P ! nat cmd
                 in Inr (s\<lparr>star := st,
                           qtheta1 := (if forward then qtheta1 s + delta_q_theta
                                       else qtheta1 s - delta_q_theta)\<rparr>))"

text \<open>
  \<^verbatim>\<open>State.get_dx_dy_qrange\<close>. The two bounds of an axis are inner products in binary64;
  each is divided by the quantum and passed to \<^verbatim>\<open>floor\<close> or \<^verbatim>\<open>ceil\<close>, which raise when the
  quotient is infinite or NaN (a bound that overflows, a quantum of zero).
\<close>

definition get_dx_dy_qrange ::
  "('m, 'b) providers \<Rightarrow> ('m, 'b) State \<Rightarrow> error + ((int \<times> int) \<times> (int \<times> int))" where
  "get_dx_dy_qrange P s =
     (let pos_quantum = Float (pos P); zeros = replicate (NUM_VARS P) (0::real) in
      if \<not> (X_INT P < NUM_VARS P \<and> X_OWN P < NUM_VARS P) then Inl IndexError
      else
        let vec = zeros[X_INT P := 1, X_OWN P := - 1] in
        (case dot (minimize_vec P (star s) vec) vec of Inl e \<Rightarrow> Inl e | Inr dx_min \<Rightarrow>
        (case dot (minimize_vec P (star s) (map uminus vec)) vec of Inl e \<Rightarrow> Inl e | Inr dx_max \<Rightarrow>
        (case py_floor (fdiv dx_min pos_quantum) of Inl e \<Rightarrow> Inl e | Inr qdx_min \<Rightarrow>
        (case py_ceil (fdiv dx_max pos_quantum) of Inl e \<Rightarrow> Inl e | Inr qdx_max \<Rightarrow>
          let dx_qrange = (qdx_min, qdx_max) in
          if \<not> Y_OWN P < NUM_VARS P then Inl IndexError
          else
            let vec = zeros[Y_OWN P := - 1] in
            (case dot (minimize_vec P (star s) vec) vec of Inl e \<Rightarrow> Inl e | Inr dy_min \<Rightarrow>
            (case dot (minimize_vec P (star s) (map uminus vec)) vec of Inl e \<Rightarrow> Inl e | Inr dy_max \<Rightarrow>
            (case py_floor (fdiv dy_min pos_quantum) of Inl e \<Rightarrow> Inl e | Inr qdy_min \<Rightarrow>
            (case py_ceil (fdiv dy_max pos_quantum) of Inl e \<Rightarrow> Inl e | Inr qdy_max \<Rightarrow>
              let dy_qrange = (qdy_min, qdy_max) in
              Inr (dx_qrange, dy_qrange))))))))))"

subsection \<open>State.get_predecessors\<close>

text \<open>The variables of one pass of the loop over \<^verbatim>\<open>prev_cmd\<close>, as the source names them.\<close>

record classification =
  qstate_to_cmd :: "int \<times> int \<rightharpoonup> int"
  all_right :: bool
  all_wrong :: bool
  correct_qstates :: "(int \<times> int) list"
  incorrect_qstates :: "(int \<times> int) list"

definition classification_init :: classification where
  "classification_init =
     \<lparr>qstate_to_cmd = Map.empty, all_right = True, all_wrong = True,
      correct_qstates = [], incorrect_qstates = []\<rparr>"

text \<open>The body of the two nested loops over \<^verbatim>\<open>qdx\<close> and \<^verbatim>\<open>qdy\<close>.\<close>

fun classify_qstate ::
  "('m, 'b) providers \<Rightarrow> ('m, 'b) State \<Rightarrow> int \<Rightarrow> classification \<Rightarrow> int \<times> int
     \<Rightarrow> classification" where
  "classify_qstate P s prev_cmd acc (qdx, qdy) =
     (if is_init_qx_qy P qdx qdy then acc
      else
        let out_cmd = get_cmd P prev_cmd qdx qdy (qtheta1 s) (qv_own s) (qv_int s);
            acc = acc\<lparr>qstate_to_cmd := (qstate_to_cmd acc)((qdx, qdy) \<mapsto> out_cmd)\<rparr>
        in if out_cmd = last (alpha_prev_list s)
           then acc\<lparr>correct_qstates := correct_qstates acc @ [(qdx, qdy)], all_wrong := False\<rparr>
           else acc\<lparr>incorrect_qstates := incorrect_qstates acc @ [(qdx, qdy)], all_right := False\<rparr>)"

definition classify_all ::
  "('m, 'b) providers \<Rightarrow> ('m, 'b) State \<Rightarrow> int \<Rightarrow> int \<times> int \<Rightarrow> int \<times> int \<Rightarrow> classification" where
  "classify_all P s prev_cmd dx_qrange dy_qrange =
     foldl (\<lambda>acc qdx.
              foldl (\<lambda>acc qdy. classify_qstate P s prev_cmd acc (qdx, qdy))
                acc [fst dy_qrange .. snd dy_qrange])
       classification_init [fst dx_qrange .. snd dx_qrange]"

text \<open>The loop over \<^verbatim>\<open>incorrect_qstates\<close>, left at the first feasible restriction.\<close>

fun all_incorrect_infeasible ::
  "('m, 'b) providers \<Rightarrow> ('m, 'b) Star \<Rightarrow> (int \<times> int) list \<Rightarrow> bool" where
  "all_incorrect_infeasible P st [] = True"
| "all_incorrect_infeasible P st (qstate # rest) =
     (if is_feasible P (make_qstar P st qstate) \<noteq> None then False
      else all_incorrect_infeasible P st rest)"

text \<open>\<^verbatim>\<open>prev_s = self.copy(...); prev_s.alpha_prev_list.append(prev_cmd); rv.append(prev_s)\<close>\<close>

definition emit ::
  "('m, 'b) State \<Rightarrow> ('m, 'b) Star option \<Rightarrow> real list option \<Rightarrow> int
     \<Rightarrow> ('m, 'b) State list \<times> int \<Rightarrow> error + (('m, 'b) State list \<times> int)" where
  "emit s new_star new_domain_witness prev_cmd acc =
     (let (rv, next_state_id) = acc in
      case copy s new_star new_domain_witness next_state_id of
        Inl e \<Rightarrow> Inl e
      | Inr (prev_s, n) \<Rightarrow>
          Inr (rv @ [prev_s\<lparr>alpha_prev_list := alpha_prev_list prev_s @ [prev_cmd]\<rparr>], n))"

text \<open>The loop over \<^verbatim>\<open>correct_qstates\<close> that splits the set.\<close>

fun split_correct ::
  "('m, 'b) providers \<Rightarrow> ('m, 'b) State \<Rightarrow> int \<Rightarrow> (int \<times> int) list
     \<Rightarrow> ('m, 'b) State list \<times> int \<Rightarrow> error + (('m, 'b) State list \<times> int)" where
  "split_correct P s prev_cmd [] acc = Inr acc"
| "split_correct P s prev_cmd (qstate # rest) acc =
     (let st = make_qstar P (star s) qstate; w = is_feasible P st in
      if w \<noteq> None then
        (case emit s (Some st) w prev_cmd acc of
           Inl e \<Rightarrow> Inl e
         | Inr acc' \<Rightarrow> split_correct P s prev_cmd rest acc')
      else split_correct P s prev_cmd rest acc)"

text \<open>One pass of the loop \<^verbatim>\<open>for prev_cmd in range(5)\<close>.\<close>

definition prev_cmd_body ::
  "('m, 'b) providers \<Rightarrow> ('m, 'b) State \<Rightarrow> int \<times> int \<Rightarrow> int \<times> int \<Rightarrow> int
     \<Rightarrow> ('m, 'b) State list \<times> int \<Rightarrow> error + (('m, 'b) State list \<times> int)" where
  "prev_cmd_body P s dx_qrange dy_qrange prev_cmd acc =
     (let c = classify_all P s prev_cmd dx_qrange dy_qrange in
      if all_wrong c then Inr acc
      else if all_right c then emit s None None prev_cmd acc
      else if all_incorrect_infeasible P (star s) (incorrect_qstates c)
        then emit s None None prev_cmd acc
      else split_correct P s prev_cmd (correct_qstates c) acc)"

fun for_prev_cmd ::
  "('m, 'b) providers \<Rightarrow> ('m, 'b) State \<Rightarrow> int \<times> int \<Rightarrow> int \<times> int \<Rightarrow> int list
     \<Rightarrow> ('m, 'b) State list \<times> int \<Rightarrow> error + (('m, 'b) State list \<times> int)" where
  "for_prev_cmd P s dx_qrange dy_qrange [] acc = Inr acc"
| "for_prev_cmd P s dx_qrange dy_qrange (prev_cmd # rest) acc =
     (case prev_cmd_body P s dx_qrange dy_qrange prev_cmd acc of
        Inl e \<Rightarrow> Inl e
      | Inr acc' \<Rightarrow> for_prev_cmd P s dx_qrange dy_qrange rest acc')"

text \<open>
  \<^verbatim>\<open>get_predecessors\<close> returns the list \<^verbatim>\<open>rv\<close>; the model also returns the receiver,
  which the call has stepped backwards, and the class counter.
\<close>

definition get_predecessors ::
  "('m, 'b) providers \<Rightarrow> ('m, 'b) State \<Rightarrow> int
     \<Rightarrow> error + (('m, 'b) State list \<times> ('m, 'b) State \<times> int)" where
  "get_predecessors P s next_state_id =
     (case get_dx_dy_qrange P s of Inl e \<Rightarrow> Inl e | Inr unused \<Rightarrow>
     (case backstep P False (- 1) s of Inl e \<Rightarrow> Inl e | Inr s1 \<Rightarrow>
     (case get_dx_dy_qrange P s1 of Inl e \<Rightarrow> Inl e | Inr (dx_qrange, dy_qrange) \<Rightarrow>
     (case for_prev_cmd P s1 dx_qrange dy_qrange [0 .. 4] ([], next_state_id) of
        Inl e \<Rightarrow> Inl e
      | Inr (rv, n) \<Rightarrow> Inr (rv, s1, n)))))"

subsection \<open>The search driver backreach_single\<close>

text \<open>\<^verbatim>\<open>pt[i]\<close> on an array.\<close>

definition coord :: "real list \<Rightarrow> nat \<Rightarrow> error + real" where
  "coord pt i = (if i < length pt then Inr (pt ! i) else Inl IndexError)"

text \<open>
  The test made on every predecessor in the loop of \<^verbatim>\<open>backreach_single\<close>: \<open>Inr True\<close> when
  the predecessor is stored as the counterexample. \<^verbatim>\<open>and\<close> does not evaluate its second
  operand when the first is false. The coordinates of the point are \<^verbatim>\<open>numpy.float64\<close>, so
  the differences, the squares (\<^verbatim>\<open>dx**2\<close> is the rounded product) and their sum are
  binary64 operations, which overflow to an infinity and raise nothing; the integer
  \<^verbatim>\<open>10000**2\<close> is compared as the binary64 number it is.
\<close>

definition counterexample_test ::
  "('m, 'b) providers \<Rightarrow> ('m, 'b) State \<Rightarrow> error + bool" where
  "counterexample_test P p =
     (case neg_index (alpha_prev_list p) 2 of Inl e \<Rightarrow> Inl e | Inr c2 \<Rightarrow>
        if c2 \<noteq> 0 then Inr False
        else
     (case neg_index (alpha_prev_list p) 1 of Inl e \<Rightarrow> Inl e | Inr c1 \<Rightarrow>
        if c1 \<noteq> 0 then Inr False
        else
     (case domain_witness p of None \<Rightarrow> Inl AssertionError | Some domain_pt \<Rightarrow>
        let pt = domain_to_range P (star p) domain_pt in
     (case coord pt (X_INT P) of Inl e \<Rightarrow> Inl e | Inr x_int \<Rightarrow>
     (case coord pt (X_OWN P) of Inl e \<Rightarrow> Inl e | Inr x_own \<Rightarrow>
     (case coord pt (Y_OWN P) of Inl e \<Rightarrow> Inl e | Inr y_own \<Rightarrow>
        let dx = fsub (Float x_int) (Float x_own); dy = fsub (Float 0) (Float y_own) in
        Inr (fgt (fadd (fmul dx dx) (fmul dy dy)) (Float (10000\<^sup>2)))))))))"

text \<open>
  \<^verbatim>\<open>for p in predecessors\<close>: every predecessor is appended to \<^verbatim>\<open>work\<close>, then tested;
  \<^verbatim>\<open>break\<close> leaves the loop with the copy in \<^verbatim>\<open>rv['counterexample']\<close>.
\<close>

fun for_predecessors ::
  "('m, 'b) providers \<Rightarrow> ('m, 'b) State list \<Rightarrow> ('m, 'b) State list
     \<Rightarrow> error + (('m, 'b) State list \<times> ('m, 'b) State option)" where
  "for_predecessors P [] work = Inr (work, None)"
| "for_predecessors P (p # rest) work =
     (case counterexample_test P p of
        Inl e \<Rightarrow> Inl e
      | Inr found \<Rightarrow>
          if found then Inr (work @ [p], Some p)
          else for_predecessors P rest (work @ [p]))"

text \<open>The variables of the \<^verbatim>\<open>while\<close> loop and the class counter.\<close>

record ('m, 'b) search =
  work :: "('m, 'b) State list"
  popped :: nat
  found :: "('m, 'b) State option"
  deadends :: "int list set"
  next_id :: int

text \<open>The body of the \<^verbatim>\<open>while\<close> loop; \<^verbatim>\<open>work.pop()\<close> takes the last element.\<close>

definition while_body ::
  "('m, 'b) providers \<Rightarrow> ('m, 'b) search \<Rightarrow> error + ('m, 'b) search" where
  "while_body P st =
     (let s = last (work st); work1 = butlast (work st); popped1 = popped st + 1 in
      case get_predecessors P s (next_id st) of
        Inl e \<Rightarrow> Inl e
      | Inr (predecessors, s1, n) \<Rightarrow>
     (case for_predecessors P predecessors work1 of
        Inl e \<Rightarrow> Inl e
      | Inr (work2, cex) \<Rightarrow>
          Inr \<lparr>work = work2, popped = popped1, found = cex,
               deadends = (if predecessors = [] then insert (alpha_prev_list s1) (deadends st)
                           else deadends st),
               next_id = n\<rparr>))"

text \<open>
  The \<^verbatim>\<open>while\<close> loop may run forever; the first argument bounds the number of passes
  and \<open>None\<close> says that the bound was reached with the loop still running.
\<close>

fun while_loop ::
  "nat \<Rightarrow> ('m, 'b) providers \<Rightarrow> ('m, 'b) search \<Rightarrow> (error + ('m, 'b) search) option" where
  "while_loop fuel P st =
     (if work st \<noteq> [] \<and> found st = None then
        (case fuel of
           0 \<Rightarrow> None
         | Suc fuel' \<Rightarrow>
             (case while_body P st of
                Inl e \<Rightarrow> Some (Inl e)
              | Inr st' \<Rightarrow> while_loop fuel' P st'))
      else Some (Inr st))"

declare while_loop.simps [simp del]

type_synonym params = "int \<times> (int \<times> int) \<times> (int \<times> int) \<times> int \<times> int \<times> int"

text \<open>\<^verbatim>\<open>BackreachResult\<close> without the measured runtime.\<close>

record ('m, 'b) BackreachResult =
  counterexample :: "('m, 'b) State option"
  num_popped :: nat
  unique_paths :: nat
  index :: int
  params :: params

text \<open>
  \<^verbatim>\<open>backreach_single(arg, parallel=False, plot=False)\<close>, with the bound on the passes of
  the loop and the value of \<^verbatim>\<open>State.next_state_id\<close> when the call starts.
\<close>

definition backreach_single ::
  "nat \<Rightarrow> ('m, 'b) providers \<Rightarrow> params option \<Rightarrow> int
     \<Rightarrow> (error + ('m, 'b) BackreachResult) option" where
  "backreach_single fuel P arg next_state_id =
     (case arg of
        None \<Rightarrow> Some (Inl AssertionError)
      | Some (init_alpha_prev, x_own, y_own, theta1, v_own, v_int) \<Rightarrow>
          let (bx, a, b) = init_to_constraints P x_own y_own v_own v_int theta1;
              init_star = \<lparr>box = bx, a_mat = a, b_vec = b\<rparr>
          in
     (case State_init P init_alpha_prev theta1 v_own v_int init_star next_state_id of
        Inl e \<Rightarrow> Some (Inl e)
      | Inr (init_s, n) \<Rightarrow>
     (case while_loop fuel P
             \<lparr>work = [init_s], popped = 0, found = None, deadends = {}, next_id = n\<rparr> of
        None \<Rightarrow> None
      | Some (Inl e) \<Rightarrow> Some (Inl e)
      | Some (Inr st) \<Rightarrow>
          Some (Inr \<lparr>counterexample = found st, num_popped = popped st,
                     unique_paths = card (deadends st), index = 0,
                     params = (init_alpha_prev, x_own, y_own, theta1, v_own, v_int)\<rparr>))))"

subsection \<open>State.copy on a store\<close>

text \<open>
  To see what a copy shares with its source, the objects are put in a store. A
  \<^verbatim>\<open>State\<close> object holds its three levels and its identifier, which are immutable
  integers, and references to its command list, to its polytope and to its witness array;
  the polytope with the arrays it owns is one object. Addresses are natural numbers and a
  new object takes the address \<open>next_addr\<close>. \<open>class_next_state_id\<close> is the class attribute
  \<^verbatim>\<open>State.next_state_id\<close>.
\<close>

type_synonym addr = nat

record State_obj =
  o_qtheta1 :: int
  o_qv_own :: int
  o_qv_int :: int
  o_alpha_prev_list :: addr
  o_star :: "addr option"
  o_domain_witness :: "addr option"
  o_state_id :: int

datatype ('m, 'b) obj =
  ListObj "int list" | StarObj "('m, 'b) Star" | ArrayObj "real list" | StateObj State_obj

record ('m, 'b) heap =
  objs :: "addr \<rightharpoonup> ('m, 'b) obj"
  next_addr :: addr
  class_next_state_id :: int

definition alloc :: "('m, 'b) heap \<Rightarrow> ('m, 'b) obj \<Rightarrow> addr \<times> ('m, 'b) heap" where
  "alloc h ob =
     (next_addr h, h\<lparr>objs := (objs h)(next_addr h \<mapsto> ob), next_addr := next_addr h + 1\<rparr>)"

text \<open>
  \<^verbatim>\<open>deepcopy\<close> of a list of integers, of a polytope or of an array: a new object with the
  same value.
\<close>

definition deepcopy_ref :: "('m, 'b) heap \<Rightarrow> addr \<Rightarrow> error + (addr \<times> ('m, 'b) heap)" where
  "deepcopy_ref h a =
     (case objs h a of None \<Rightarrow> Inl NoSuchObject | Some ob \<Rightarrow> Inr (alloc h ob))"

text \<open>\<^verbatim>\<open>deepcopy\<close> of an attribute that is \<^verbatim>\<open>None\<close> or a reference.\<close>

definition deepcopy_attr ::
  "('m, 'b) heap \<Rightarrow> addr option \<Rightarrow> error + (addr option \<times> ('m, 'b) heap)" where
  "deepcopy_attr h r =
     (case r of
        None \<Rightarrow> Inr (None, h)
      | Some a \<Rightarrow>
          (case deepcopy_ref h a of Inl e \<Rightarrow> Inl e | Inr (a', h') \<Rightarrow> Inr (Some a', h')))"

text \<open>
  \<^verbatim>\<open>deepcopy(self)\<close> for a \<^verbatim>\<open>State\<close>: a new object, then the copies of its
  attributes in the order of their creation.
\<close>

definition heap_deepcopy :: "('m, 'b) heap \<Rightarrow> addr \<Rightarrow> error + (addr \<times> ('m, 'b) heap)" where
  "heap_deepcopy h self =
     (case objs h self of
        Some (StateObj so) \<Rightarrow>
          let (rv, h0) = alloc h (StateObj so) in
          (case deepcopy_ref h0 (o_alpha_prev_list so) of Inl e \<Rightarrow> Inl e | Inr (l, h1) \<Rightarrow>
          (case deepcopy_attr h1 (o_star so) of Inl e \<Rightarrow> Inl e | Inr (st, h2) \<Rightarrow>
          (case deepcopy_attr h2 (o_domain_witness so) of Inl e \<Rightarrow> Inl e | Inr (w, h3) \<Rightarrow>
             Inr (rv, h3\<lparr>objs := (objs h3)(rv \<mapsto>
                    StateObj (so\<lparr>o_alpha_prev_list := l, o_star := st,
                                   o_domain_witness := w\<rparr>))\<rparr>))))
      | _ \<Rightarrow> Inl NoSuchObject)"

text \<open>An assignment to attributes of the \<^verbatim>\<open>State\<close> object at an address.\<close>

definition set_attrs ::
  "('m, 'b) heap \<Rightarrow> addr \<Rightarrow> (State_obj \<Rightarrow> State_obj) \<Rightarrow> ('m, 'b) heap" where
  "set_attrs h a f =
     (case objs h a of
        Some (StateObj so) \<Rightarrow> h\<lparr>objs := (objs h)(a \<mapsto> StateObj (f so))\<rparr>
      | _ \<Rightarrow> h)"

text \<open>\<^verbatim>\<open>assign_state_id\<close> on the store.\<close>

definition heap_assign_state_id :: "('m, 'b) heap \<Rightarrow> addr \<Rightarrow> ('m, 'b) heap" where
  "heap_assign_state_id h a =
     (set_attrs h a (\<lambda>so. so\<lparr>o_state_id := class_next_state_id h\<rparr>))
       \<lparr>class_next_state_id := class_next_state_id h + 1\<rparr>"

text \<open>
  \<^verbatim>\<open>State.__init__\<close> on the store, for a polytope that lies at an address: the command
  list and the witness array are new objects, the polytope is referred to.
\<close>

definition heap_State_init ::
  "('m, 'b) providers \<Rightarrow> ('m, 'b) heap \<Rightarrow> int \<Rightarrow> int \<Rightarrow> int \<Rightarrow> int \<Rightarrow> addr
     \<Rightarrow> error + (addr \<times> ('m, 'b) heap)" where
  "heap_State_init P h alpha_prev qth qvo qvi star_addr =
     (case objs h star_addr of
        Some (StarObj st) \<Rightarrow>
          let (l, h1) = alloc h (ListObj [alpha_prev]) in
          (case is_feasible P st of
             None \<Rightarrow> Inl AssertionError
           | Some w \<Rightarrow>
               let (wa, h2) = alloc h1 (ArrayObj w);
                   (self, h3) = alloc h2 (StateObj
                     \<lparr>o_qtheta1 = qth, o_qv_own = qvo, o_qv_int = qvi, o_alpha_prev_list = l,
                      o_star = Some star_addr, o_domain_witness = Some wa, o_state_id = - 1\<rparr>)
               in Inr (self, heap_assign_state_id h3 self))
      | _ \<Rightarrow> Inl NoSuchObject)"

text \<open>\<^verbatim>\<open>State.copy(new_star, new_domain_witness)\<close> on the store, statement by statement.\<close>

definition heap_copy ::
  "('m, 'b) heap \<Rightarrow> addr \<Rightarrow> addr option \<Rightarrow> addr option \<Rightarrow> error + (addr \<times> ('m, 'b) heap)" where
  "heap_copy h self new_star new_domain_witness =
     (if new_star \<noteq> None \<and> new_domain_witness = None then Inl AssertionError
      else
        (case objs h self of
           Some (StateObj so) \<Rightarrow>
             let self_star = o_star so;
                 h1 = (if new_star \<noteq> None then set_attrs h self (\<lambda>so. so\<lparr>o_star := None\<rparr>)
                       else h)
             in (case heap_deepcopy h1 self of
                   Inl e \<Rightarrow> Inl e
                 | Inr (rv, h2) \<Rightarrow>
                     let h3 = heap_assign_state_id h2 rv in
                     if new_star \<noteq> None then
                       let h4 = set_attrs h3 rv
                                  (\<lambda>so. so\<lparr>o_star := new_star,
                                            o_domain_witness := new_domain_witness\<rparr>);
                           h5 = set_attrs h4 self (\<lambda>so. so\<lparr>o_star := self_star\<rparr>)
                       in Inr (rv, h5)
                     else Inr (rv, h3))
         | _ \<Rightarrow> Inl NoSuchObject))"

section \<open>The specification's reading\<close>

text \<open>
  The definitions of this section follow the words of the specification, not the loops of
  the source; the theorems compare them with the model.
\<close>

subsection \<open>The predecessor policy\<close>

text \<open>
  The cells that are enumerated: every cell of the two inclusive ranges, the first coordinate
  in the outer loop, but for the cells flagged as initial.
\<close>

definition sampled_cells :: "('m, 'b) providers \<Rightarrow> int \<times> int \<Rightarrow> int \<times> int \<Rightarrow> (int \<times> int) list" where
  "sampled_cells P dx_qrange dy_qrange =
     filter (\<lambda>q. \<not> is_init_qx_qy P (fst q) (snd q))
       (List.product [fst dx_qrange .. snd dx_qrange] [fst dy_qrange .. snd dy_qrange])"

text \<open>A cell matches when the decision function, asked with the candidate command, gives the known current command.\<close>

definition cell_matches :: "('m, 'b) providers \<Rightarrow> ('m, 'b) State \<Rightarrow> int \<Rightarrow> int \<times> int \<Rightarrow> bool" where
  "cell_matches P s prev_cmd qstate =
     (get_cmd P prev_cmd (fst qstate) (snd qstate) (qtheta1 s) (qv_own s) (qv_int s)
        = last (alpha_prev_list s))"

text \<open>The stepped state with the candidate appended, and the same restricted to a cell.\<close>

definition unrestricted :: "('m, 'b) State \<Rightarrow> int \<Rightarrow> ('m, 'b) State" where
  "unrestricted s prev_cmd = s\<lparr>alpha_prev_list := alpha_prev_list s @ [prev_cmd]\<rparr>"

definition restricted ::
  "('m, 'b) providers \<Rightarrow> ('m, 'b) State \<Rightarrow> int \<Rightarrow> int \<times> int \<Rightarrow> ('m, 'b) State" where
  "restricted P s prev_cmd qstate =
     s\<lparr>alpha_prev_list := alpha_prev_list s @ [prev_cmd],
       star := make_qstar P (star s) qstate,
       domain_witness := is_feasible P (make_qstar P (star s) qstate)\<rparr>"

text \<open>The restriction of the polytope to the cell has a witness.\<close>

definition feasible_cell :: "('m, 'b) providers \<Rightarrow> ('m, 'b) State \<Rightarrow> int \<times> int \<Rightarrow> bool" where
  "feasible_cell P s qstate = (is_feasible P (make_qstar P (star s) qstate) \<noteq> None)"

text \<open>The decision policy for one candidate command, its four cases in the order of priority.\<close>

definition spec_policy ::
  "('m, 'b) providers \<Rightarrow> ('m, 'b) State \<Rightarrow> int \<times> int \<Rightarrow> int \<times> int \<Rightarrow> int
     \<Rightarrow> ('m, 'b) State list" where
  "spec_policy P s dx_qrange dy_qrange prev_cmd =
     (let cells = sampled_cells P dx_qrange dy_qrange;
          match = filter (cell_matches P s prev_cmd) cells;
          mismatch = filter (\<lambda>q. \<not> cell_matches P s prev_cmd q) cells
      in if match = [] then []
         else if mismatch = [] then [unrestricted s prev_cmd]
         else if list_all (\<lambda>q. \<not> feasible_cell P s q) mismatch then [unrestricted s prev_cmd]
         else map (restricted P s prev_cmd) (filter (feasible_cell P s) match))"

text \<open>The identifiers that the copies take from the class counter, one after the other.\<close>

fun with_ids :: "int \<Rightarrow> ('m, 'b) State list \<Rightarrow> ('m, 'b) State list" where
  "with_ids n [] = []"
| "with_ids n (p # ps) = p\<lparr>state_id := n\<rparr> # with_ids (n + 1) ps"

text \<open>The candidates in ascending order.\<close>

definition spec_predecessors ::
  "('m, 'b) providers \<Rightarrow> ('m, 'b) State \<Rightarrow> int \<times> int \<Rightarrow> int \<times> int \<Rightarrow> ('m, 'b) State list" where
  "spec_predecessors P s dx_qrange dy_qrange =
     concat (map (spec_policy P s dx_qrange dy_qrange) [0 .. 4])"

text \<open>
  What the source expects of the constants and of the optimizer it imports: the coordinates
  it reads exist, the quantum is not zero, the table of heading deltas has its five entries
  and an optimum is a point of \<open>NUM_VARS\<close> coordinates.
\<close>

definition providers_ok :: "('m, 'b) providers \<Rightarrow> bool" where
  "providers_ok P =
     (X_INT P < NUM_VARS P \<and> X_OWN P < NUM_VARS P \<and> Y_OWN P < NUM_VARS P \<and> pos P \<noteq> 0 \<and>
      length (cmd_quantum_list P) = 5 \<and>
      (\<forall>st v. length (minimize_vec P st v) = NUM_VARS P))"

subsection \<open>The command history and the counterexample condition\<close>

text \<open>The invariant of the command history in the data model of the specification.\<close>

definition history_ok :: "('m, 'b) State \<Rightarrow> bool" where
  "history_ok s =
     (alpha_prev_list s \<noteq> [] \<and> list_all (\<lambda>c. 0 \<le> c \<and> c \<le> 4) (alpha_prev_list s))"

text \<open>
  The sum of the squares of the two differences between the own position \<open>(x_own, y_own)\<close>
  and the intruder position \<open>(x_int, 0)\<close> at the witness point of a state, mapped to range
  coordinates: the binary64 number that the code computes.
\<close>

definition squared_separation :: "('m, 'b) providers \<Rightarrow> ('m, 'b) State \<Rightarrow> float64" where
  "squared_separation P p =
     (case domain_witness p of
        None \<Rightarrow> Float 0
      | Some domain_pt \<Rightarrow>
          let pt = domain_to_range P (star p) domain_pt;
              dx = fsub (Float (pt ! X_INT P)) (Float (pt ! X_OWN P));
              dy = fsub (Float 0) (Float (pt ! Y_OWN P))
          in fadd (fmul dx dx) (fmul dy dy))"

text \<open>The Euclidean separation: the root of this sum.\<close>

definition separation :: "('m, 'b) providers \<Rightarrow> ('m, 'b) State \<Rightarrow> float64" where
  "separation P p =
     (case squared_separation P p of
        Float r \<Rightarrow> Float (sqrt r) | PosInf \<Rightarrow> PosInf | NegInf \<Rightarrow> NegInf | NaN \<Rightarrow> NaN)"

text \<open>The counterexample condition in the words of the specification.\<close>

definition spec_counterexample :: "('m, 'b) providers \<Rightarrow> ('m, 'b) State \<Rightarrow> bool" where
  "spec_counterexample P p =
     (neg_index (alpha_prev_list p) 1 = Inr 0 \<and> neg_index (alpha_prev_list p) 2 = Inr 0 \<and>
      fgt (separation P p) (Float 10000))"

text \<open>
  One pass of the search loop as the specification describes it: the predecessors up to and
  including the first that meets the counterexample condition are pushed, and this one is
  recorded.
\<close>

definition spec_pass ::
  "('m, 'b) providers \<Rightarrow> ('m, 'b) search \<Rightarrow> ('m, 'b) State list \<Rightarrow> ('m, 'b) State \<Rightarrow> int
     \<Rightarrow> ('m, 'b) search" where
  "spec_pass P st ps s1 n =
     \<lparr>work = butlast (work st) @ takeWhile (\<lambda>x. \<not> spec_counterexample P x) ps
               @ take 1 (dropWhile (\<lambda>x. \<not> spec_counterexample P x) ps),
      popped = popped st + 1,
      found = find (spec_counterexample P) ps,
      deadends = (if ps = [] then insert (alpha_prev_list s1) (deadends st) else deadends st),
      next_id = n\<rparr>"

text \<open>
  What the driver expects of the coordinate mapping \<^verbatim>\<open>Star.domain_to_range\<close>: the point it
  returns has the three coordinates that are read.
\<close>

definition range_points_ok :: "('m, 'b) providers \<Rightarrow> bool" where
  "range_points_ok P =
     (\<forall>st d. X_INT P < length (domain_to_range P st d) \<and>
             X_OWN P < length (domain_to_range P st d) \<and>
             Y_OWN P < length (domain_to_range P st d))"



subsection \<open>The search up to identifiers\<close>

text \<open>A state without its identifier; the search is compared up to identifiers.\<close>

definition erase :: "('m, 'b) State \<Rightarrow> ('m, 'b) State" where
  "erase s = s\<lparr>state_id := 0\<rparr>"

text \<open>The variables of the loop that the result depends on, up to identifiers.\<close>

definition abstract_search ::
  "('m, 'b) search \<Rightarrow> ('m, 'b) State list \<times> nat \<times> ('m, 'b) State option \<times> int list set" where
  "abstract_search st =
     (map erase (work st), popped st, map_option erase (found st), deadends st)"

text \<open>The outcome of \<open>get_predecessors\<close> up to identifiers and the class counter.\<close>

definition abstract_predecessors ::
  "error + (('m, 'b) State list \<times> ('m, 'b) State \<times> int)
     \<Rightarrow> error + (('m, 'b) State list \<times> ('m, 'b) State)" where
  "abstract_predecessors r = map_sum id (\<lambda>(rv, s1, n). (map erase rv, erase s1)) r"

subsection \<open>The quantized range\<close>

text \<open>
  The displacement from the own aircraft to the intruder at a point of the range: the
  intruder is at \<open>(x_int, 0)\<close>.
\<close>

definition dx_of :: "('m, 'b) providers \<Rightarrow> real list \<Rightarrow> real" where
  "dx_of P p = p ! X_INT P - p ! X_OWN P"

definition dy_of :: "('m, 'b) providers \<Rightarrow> real list \<Rightarrow> real" where
  "dy_of P p = 0 - p ! Y_OWN P"







subsection \<open>Objects of the store\<close>

text \<open>No object lies at or beyond the next address.\<close>

definition heap_ok :: "('m, 'b) heap \<Rightarrow> bool" where
  "heap_ok h = (\<forall>a. next_addr h \<le> a \<longrightarrow> objs h a = None)"

text \<open>
  The identifier of every \<^verbatim>\<open>State\<close> object of the store is below the class counter:
  the identifiers are handed out by \<^verbatim>\<open>assign_state_id\<close> only, which increments it.
\<close>

definition ids_ok :: "('m, 'b) heap \<Rightarrow> bool" where
  "ids_ok h =
     (\<forall>a so. objs h a = Some (StateObj so) \<longrightarrow> o_state_id so < class_next_state_id h)"

text \<open>The store of a program that has made no object yet.\<close>

definition empty_heap :: "('m, 'b) heap" where
  "empty_heap = \<lparr>objs = Map.empty, next_addr = 0, class_next_state_id = 0\<rparr>"

text \<open>
  A \<^verbatim>\<open>State\<close> object as the constructor leaves it: its references lead to a command
  list, a polytope and a witness array.
\<close>

definition state_at ::
  "('m, 'b) heap \<Rightarrow> addr \<Rightarrow> State_obj \<Rightarrow> int list \<Rightarrow> ('m, 'b) Star \<Rightarrow> real list \<Rightarrow> bool" where
  "state_at h a so hist st w =
     (objs h a = Some (StateObj so) \<and>
      objs h (o_alpha_prev_list so) = Some (ListObj hist) \<and>
      (case o_star so of None \<Rightarrow> False | Some sa \<Rightarrow> objs h sa = Some (StarObj st)) \<and>
      (case o_domain_witness so of None \<Rightarrow> False | Some wa \<Rightarrow> objs h wa = Some (ArrayObj w)))"

text \<open>The value of a polytope, of an array and of a \<^verbatim>\<open>State\<close> read from the store.\<close>

definition read_star :: "('m, 'b) heap \<Rightarrow> addr option \<Rightarrow> ('m, 'b) Star option" where
  "read_star h r =
     (case r of None \<Rightarrow> None
      | Some a \<Rightarrow> (case objs h a of Some (StarObj st) \<Rightarrow> Some st | _ \<Rightarrow> None))"

definition read_array :: "('m, 'b) heap \<Rightarrow> addr option \<Rightarrow> real list option" where
  "read_array h r =
     (case r of None \<Rightarrow> None
      | Some a \<Rightarrow> (case objs h a of Some (ArrayObj w) \<Rightarrow> Some w | _ \<Rightarrow> None))"

definition read_state :: "('m, 'b) heap \<Rightarrow> addr \<Rightarrow> ('m, 'b) State option" where
  "read_state h a =
     (case objs h a of
        Some (StateObj so) \<Rightarrow>
          (case objs h (o_alpha_prev_list so) of
             Some (ListObj hist) \<Rightarrow>
               (case read_star h (o_star so) of
                  Some st \<Rightarrow>
                    Some \<lparr>qtheta1 = o_qtheta1 so, qv_own = o_qv_own so, qv_int = o_qv_int so,
                          alpha_prev_list = hist, star = st,
                          domain_witness = read_array h (o_domain_witness so),
                          state_id = o_state_id so\<rparr>
                | None \<Rightarrow> None)
           | _ \<Rightarrow> None)
      | _ \<Rightarrow> None)"

section \<open>A small instance of the providers\<close>

text \<open>
  A one-dimensional geometry on which the model can be run: a polytope is the segment of
  the points \<open>[0, 0, a * t + b]\<close> with \<open>t\<close> between the two bounds of its \<open>box\<close>; the own
  aircraft sits at the origin and the intruder at \<open>x_int\<close> on the axis. The quantum is 1, a
  cell is the closed unit interval, the cell \<open>(0, 0)\<close> is the initial one, and one step
  forward doubles the distance (one step backward halves it).
\<close>

definition demo :: "(real, real \<times> real) providers" where
  "demo =
     \<lparr>is_feasible = (\<lambda>st. if fst (box st) \<le> snd (box st)
                           then Some [(fst (box st) + snd (box st)) / 2] else None),
      minimize_vec = (\<lambda>st v.
         [0, 0, a_mat st * (if 0 \<le> v ! 2 * a_mat st then fst (box st) else snd (box st))
                  + b_vec st]),
      domain_to_range = (\<lambda>st d. [0, 0, a_mat st * hd d + b_vec st]),
      make_qstar = (\<lambda>st q.
         if snd q \<le> 0 \<and> 0 \<le> snd q + 1
         then st\<lparr>box := (max (fst (box st)) ((of_int (fst q) - b_vec st) / a_mat st),
                          min (snd (box st)) ((of_int (fst q) + 1 - b_vec st) / a_mat st))\<rparr>
         else st\<lparr>box := (1, 0)\<rparr>),
      is_init_qx_qy = (\<lambda>qdx qdy. qdx = 0 \<and> qdy = 0),
      get_cmd = (\<lambda>prev_cmd qdx qdy qth qvo qvi.
         if prev_cmd = 0 then 0
         else if prev_cmd = 1 then (if qdx \<le> 1 then 0 else 1)
         else if prev_cmd = 2 then (if qdx = 2 then 0 else 1)
         else prev_cmd),
      get_time_elapse_mat = (\<lambda>cmd dt. if dt < 0 then 1 / 2 else 2),
      init_to_constraints = (\<lambda>x_own y_own v_own v_int theta1.
         ((of_int (fst x_own), of_int (snd x_own)), 1, 0)),
      matmul = (*),
      pos = 1,
      cmd_quantum_list = [0, 1, - 1, 2, - 2],
      X_OWN = 0, Y_OWN = 1, X_INT = 2, NUM_VARS = 3\<rparr>"

text \<open>A state of the instance on the segment from \<open>lo\<close> to \<open>hi\<close> scaled by \<open>a\<close>, with the witness in the middle.\<close>

definition demo_state :: "real \<Rightarrow> real \<Rightarrow> real \<Rightarrow> int list \<Rightarrow> (real, real \<times> real) State" where
  "demo_state a lo hi cmds =
     \<lparr>qtheta1 = 10, qv_own = 2, qv_int = 7, alpha_prev_list = cmds,
      star = \<lparr>box = (lo, hi), a_mat = a, b_vec = 0\<rparr>,
      domain_witness = Some [(lo + hi) / 2], state_id = 0\<rparr>"

text \<open>The points of a polytope of the small instance.\<close>

definition demo_region :: "(real, real \<times> real) Star \<Rightarrow> real list set" where
  "demo_region st =
     {p. \<exists>t. fst (box st) \<le> t \<and> t \<le> snd (box st) \<and> p = [0, 0, a_mat st * t + b_vec st]}"

text \<open>A second instance, whose decision differs in the cell 10002 only, so that sets are split.\<close>

definition demo_split :: "(real, real \<times> real) providers" where
  "demo_split = demo\<lparr>get_cmd := (\<lambda>prev_cmd qdx qdy qth qvo qvi. if qdx = 10002 then 1 else 0)\<rparr>"

text \<open>The predecessors of the segment from 19999 to 20005 for one candidate command.\<close>

definition demo_split_preds :: "int \<Rightarrow> (real, real \<times> real) State list" where
  "demo_split_preds c =
     [demo_state (1 / 2) 19999 20000 [0, c], demo_state (1 / 2) 20000 20002 [0, c],
      demo_state (1 / 2) 20002 20004 [0, c]]"

text \<open>A frontier of two states, and what one pass of the loop makes of it.\<close>

definition demo_frontier :: "(real, real \<times> real) search" where
  "demo_frontier =
     \<lparr>work = [demo_state 1 0 1 [4], demo_state 1 19999 20005 [0]], popped = 0, found = None,
      deadends = {}, next_id = 1\<rparr>"

definition demo_found :: "(real, real \<times> real) search" where
  "demo_found =
     \<lparr>work = [demo_state 1 0 1 [4],
              (demo_state (1 / 2) 19999 20000 [0, 0])\<lparr>state_id := 1\<rparr>,
              (demo_state (1 / 2) 20000 20002 [0, 0])\<lparr>state_id := 2\<rparr>],
      popped = 1,
      found = Some ((demo_state (1 / 2) 20000 20002 [0, 0])\<lparr>state_id := 2\<rparr>),
      deadends = {}, next_id = 16\<rparr>"

text \<open>
  A third instance, whose polytope is the single point \<open>p\<close> and whose quantum is \<open>q\<close>, to
  run the arithmetic where it rounds.
\<close>

definition demo_point :: "real list \<Rightarrow> real \<Rightarrow> (real, real \<times> real) providers" where
  "demo_point p q = demo\<lparr>minimize_vec := (\<lambda>st v. p), domain_to_range := (\<lambda>st d. p), pos := q\<rparr>"





text \<open>
  A store with one \<^verbatim>\<open>State\<close> at the address 0, and a second polytope and array at the
  addresses 4 and 5 to serve as replacements.
\<close>

definition demo_heap :: "(real, real \<times> real) heap" where
  "demo_heap =
     \<lparr>objs = [0 \<mapsto> StateObj \<lparr>o_qtheta1 = 10, o_qv_own = 2, o_qv_int = 7, o_alpha_prev_list = 1,
                              o_star = Some 2, o_domain_witness = Some 3, o_state_id = 0\<rparr>,
              1 \<mapsto> ListObj [0],
              2 \<mapsto> StarObj \<lparr>box = (3, 5), a_mat = 1 / 2, b_vec = 0\<rparr>,
              3 \<mapsto> ArrayObj [4],
              4 \<mapsto> StarObj \<lparr>box = (3, 4), a_mat = 1 / 2, b_vec = 0\<rparr>,
              5 \<mapsto> ArrayObj [7 / 2]],
      next_addr = 6, class_next_state_id = 1\<rparr>"

section \<open>Lemmas about the model\<close>

subsection \<open>Binary64 arithmetic\<close>


lemma exponent_up_range: "0 \<le> exponent_up n x \<and> exponent_up n x \<le> int n"
  by (induction n arbitrary: x) auto

lemma exponent_up_lower: "1 \<le> x \<Longrightarrow> 2 powi (exponent_up n x) \<le> x"
proof (induction n arbitrary: x)
  case 0
  then show ?case by simp
next
  case (Suc n)
  show ?case
  proof (cases "x < 2")
    case True
    with Suc.prems show ?thesis by simp
  next
    case False
    then have "1 \<le> x / 2" by simp
    from Suc.IH [OF this] have "2 powi (exponent_up n (x / 2)) \<le> x / 2" .
    then have "2 * 2 powi (exponent_up n (x / 2)) \<le> x" by simp
    with False show ?thesis by (simp add: power_int_add_1')
  qed
qed

lemma exponent_up_upper: "x < 2 ^ n \<Longrightarrow> 1 \<le> x \<Longrightarrow> x < 2 powi (exponent_up n x + 1)"
proof (induction n arbitrary: x)
  case 0
  then show ?case by simp
next
  case (Suc n)
  show ?case
  proof (cases "x < 2")
    case True
    then show ?thesis by simp
  next
    case False
    with Suc.prems have "x / 2 < 2 ^ n" "1 \<le> x / 2" by simp_all
    from Suc.IH [OF this] have "x / 2 < 2 powi (exponent_up n (x / 2) + 1)" .
    then have "x < 2 * 2 powi (exponent_up n (x / 2) + 1)" by simp
    also have "\<dots> = 2 powi (exponent_up n (x / 2) + 1 + 1)"
      by (rule power_int_add_1' [symmetric]) simp
    finally show ?thesis using False by simp
  qed
qed

lemma exponent_up_big: "2 ^ n \<le> x \<Longrightarrow> exponent_up n x = int n"
proof (induction n arbitrary: x)
  case 0
  then show ?case by simp
next
  case (Suc n)
  then have a: "2 ^ n \<le> x / 2" by simp
  have "(1::real) \<le> 2 ^ n" by (rule one_le_power) simp
  with a have "\<not> x < 2" by linarith
  with Suc.IH [OF a] show ?case by simp
qed

lemma exponent_down_range: "- int n \<le> exponent_down n x \<and> exponent_down n x \<le> 0"
proof (induction n arbitrary: x)
  case 0
  show ?case by simp
next
  case (Suc n)
  from Suc.IH [of "2 * x"] show ?case by simp
qed

lemma exponent_down_lower: "1 / 2 ^ n \<le> x \<Longrightarrow> 0 < x \<Longrightarrow> 2 powi (exponent_down n x) \<le> x"
proof (induction n arbitrary: x)
  case 0
  then show ?case by simp
next
  case (Suc n)
  show ?case
  proof (cases "1 \<le> x")
    case True
    then show ?thesis by simp
  next
    case False
    from Suc.prems have "1 / 2 ^ n \<le> 2 * x" "0 < 2 * x"
      by (simp_all add: field_simps)
    from Suc.IH [OF this] have "2 powi (exponent_down n (2 * x)) \<le> 2 * x" .
    moreover have "(2::real) powi (exponent_down n (2 * x)) = 2 * 2 powi (exponent_down n (2 * x) - 1)"
      using power_int_add_1' [of "2::real" "exponent_down n (2 * x) - 1"] by simp
    ultimately show ?thesis using False by simp
  qed
qed

lemma exponent_down_upper: "x < 1 \<Longrightarrow> x < 2 powi (exponent_down n x + 1)"
proof (induction n arbitrary: x)
  case 0
  then show ?case by simp
next
  case (Suc n)
  show ?case
  proof (cases "2 * x < 1")
    case True
    from Suc.IH [OF this] have "2 * x < 2 powi (exponent_down n (2 * x) + 1)" .
    moreover have "(2::real) powi (exponent_down n (2 * x) + 1) = 2 * 2 powi (exponent_down n (2 * x))"
      by (simp add: power_int_add_1')
    ultimately show ?thesis using Suc.prems by simp
  next
    case False
    then have "1 \<le> 2 * x" by simp
    then have "exponent_down n (2 * x) = 0" by (cases n) simp_all
    with Suc.prems show ?thesis by simp
  qed
qed

lemma exponent_down_small: "x < 1 / 2 ^ n \<Longrightarrow> exponent_down n x = - int n"
proof (induction n arbitrary: x)
  case 0
  then show ?case by simp
next
  case (Suc n)
  then have a: "2 * x < 1 / 2 ^ n" by (simp add: field_simps)
  have "(1::real) / 2 ^ Suc n \<le> 1"
    using one_le_power [of "2::real" "Suc n"] by (simp add: field_simps)
  with Suc.prems have "x < 1" by linarith
  with Suc.IH [OF a] show ?case by simp
qed


lemma exponent_range: "- 1074 \<le> exponent x \<and> exponent x \<le> 1024"
  using exponent_up_range [of 1024 "\<bar>x\<bar>"] exponent_down_range [of 1074 "\<bar>x\<bar>"]
  by (simp add: exponent_def)

lemma exponent_lower: "2 powi (- 1074) \<le> \<bar>x\<bar> \<Longrightarrow> 2 powi (exponent x) \<le> \<bar>x\<bar>"
proof (cases "1 \<le> \<bar>x\<bar>")
  case True
  then show ?thesis by (simp add: exponent_def exponent_up_lower)
next
  case False
  assume a: "2 powi (- 1074) \<le> \<bar>x\<bar>"
  have "(0::real) < 2 powi (- 1074)" by (rule zero_less_power_int) simp
  with a have p: "0 < \<bar>x\<bar>" by linarith
  from a have "1 / 2 ^ 1074 \<le> \<bar>x\<bar>" by (simp add: power_int_minus_divide)
  from exponent_down_lower [OF this p] False show ?thesis by (simp add: exponent_def)
qed

lemma exponent_upper: "\<bar>x\<bar> < 2 ^ 1024 \<Longrightarrow> \<bar>x\<bar> < 2 powi (exponent x + 1)"
proof (cases "1 \<le> \<bar>x\<bar>")
  case True
  assume "\<bar>x\<bar> < 2 ^ 1024"
  from exponent_up_upper [OF this True] True show ?thesis by (simp add: exponent_def)
next
  case False
  then have "\<bar>x\<bar> < 1" by simp
  from exponent_down_upper [OF this] False show ?thesis by (simp add: exponent_def)
qed

lemma exponent_big: "2 ^ 1024 \<le> \<bar>x\<bar> \<Longrightarrow> exponent x = 1024"
proof -
  assume a: "2 ^ 1024 \<le> \<bar>x\<bar>"
  have "(1::real) \<le> 2 ^ 1024" by (rule one_le_power) simp
  with a have "1 \<le> \<bar>x\<bar>" by linarith
  with exponent_up_big [OF a] show ?thesis by (simp add: exponent_def)
qed

lemma exponent_small: "\<bar>x\<bar> < 2 powi (- 1074) \<Longrightarrow> exponent x = - 1074"
proof -
  assume a: "\<bar>x\<bar> < 2 powi (- 1074)"
  then have b: "\<bar>x\<bar> < 1 / 2 ^ 1074" by (simp add: power_int_minus_divide)
  have "(1::real) / 2 ^ 1074 \<le> 1"
    using one_le_power [of "2::real" 1074] by (simp add: field_simps)
  with b have "\<not> 1 \<le> \<bar>x\<bar>" by linarith
  with exponent_down_small [OF b] show ?thesis by (simp add: exponent_def)
qed

lemma exponent_mono: "\<bar>x\<bar> \<le> \<bar>y\<bar> \<Longrightarrow> exponent x \<le> exponent y"
proof (rule ccontr)
  assume le: "\<bar>x\<bar> \<le> \<bar>y\<bar>" and "\<not> exponent x \<le> exponent y"
  then have lt: "exponent y < exponent x" by simp
  with exponent_range [of x] have "exponent y \<noteq> 1024" by linarith
  with exponent_big [of y] have "\<bar>y\<bar> < 2 ^ 1024" by fastforce
  then have "\<bar>y\<bar> < 2 powi (exponent y + 1)" by (rule exponent_upper)
  also from lt have "(2::real) powi (exponent y + 1) \<le> 2 powi (exponent x)"
    by (intro power_int_increasing) simp_all
  finally have u: "\<bar>y\<bar> < 2 powi (exponent x)" .
  from lt exponent_range [of y] have "exponent x \<noteq> - 1074" by linarith
  with exponent_small [of x] have "2 powi (- 1074) \<le> \<bar>x\<bar>" by fastforce
  then have "2 powi (exponent x) \<le> \<bar>x\<bar>" by (rule exponent_lower)
  with u le show False by linarith
qed

lemma exponent_eqI:
  assumes "2 powi e \<le> \<bar>x\<bar>" and "\<bar>x\<bar> < 2 powi (e + 1)" and "- 1074 \<le> e" and "e \<le> 1023"
  shows "exponent x = e"
proof -
  from assms(3) have "(2::real) powi (- 1074) \<le> 2 powi e"
    by (intro power_int_increasing) simp_all
  with assms(1) have "2 powi (- 1074) \<le> \<bar>x\<bar>" by linarith
  then have "2 powi (exponent x) \<le> \<bar>x\<bar>" by (rule exponent_lower)
  with assms(2) have "(2::real) powi (exponent x) < 2 powi (e + 1)" by linarith
  then have a: "exponent x < e + 1"
    using power_int_increasing [of "e + 1" "exponent x" "2::real"] by (cases "exponent x < e + 1") auto
  from assms(4) have "(2::real) powi (e + 1) \<le> 2 powi 1024"
    by (intro power_int_increasing) simp_all
  with assms(2) have "\<bar>x\<bar> < 2 ^ 1024" by simp
  then have "\<bar>x\<bar> < 2 powi (exponent x + 1)" by (rule exponent_upper)
  with assms(1) have "(2::real) powi e < 2 powi (exponent x + 1)" by linarith
  then have "e < exponent x + 1"
    using power_int_increasing [of "exponent x + 1" e "2::real"] by (cases "e < exponent x + 1") auto
  with a show ?thesis by simp
qed

lemma ulp_pos: "0 < ulp x"
  by (simp add: ulp_def zero_less_power_int)

lemma ulp_mono: "\<bar>x\<bar> \<le> \<bar>y\<bar> \<Longrightarrow> ulp x \<le> ulp y"
  unfolding ulp_def by (intro power_int_increasing) (auto dest: exponent_mono)

lemma round_half_even_of_int [simp]: "round_half_even (of_int k) = k"
  by (simp add: round_half_even_def)

lemma round_half_even_zero [simp]: "round_half_even 0 = 0"
  using round_half_even_of_int [of 0] by simp

lemma round_half_even_power [simp]: "round_half_even (2 ^ n) = 2 ^ n"
  using round_half_even_of_int [of "2 ^ n"] by simp








lemma exponent_minus [simp]: "exponent (- x) = exponent x"
  by (simp add: exponent_def)

lemma ulp_minus [simp]: "ulp (- x) = ulp x"
  by (simp add: ulp_def)

lemma magnitude_minus [simp]: "magnitude (- x) = magnitude x"
  by (simp add: magnitude_def)

lemma nearest_minus: "nearest (- x) = - nearest x"
  by (simp add: nearest_def sgn_minus)


lemma round64_not_NaN [simp]: "round64 x \<noteq> NaN"
  by (simp add: round64_def Let_def)

lemma overflow_bound_pos: "0 < overflow_bound"
  by (simp add: overflow_bound_def)


lemma round64_minus: "round64 (- x) = fneg (round64 x)"
  using overflow_bound_pos by (auto simp add: round64_def Let_def nearest_minus)

lemma is_float64_minus [simp]: "is_float64 (- x) = is_float64 x"
  by (cases "round64 x") (auto simp add: is_float64_def round64_minus)

lemma round64_zero [simp]: "round64 0 = Float 0"
  by (simp add: round64_def nearest_def overflow_bound_def)

lemma is_float64_zero [simp]: "is_float64 0"
  by (simp add: is_float64_def)

lemma magnitude_exact: "\<bar>x\<bar> = of_int n * ulp x \<Longrightarrow> magnitude x = \<bar>x\<bar>"
  using ulp_pos [of x] by (simp add: magnitude_def)

lemma nearest_exact:
  assumes "\<bar>x\<bar> = of_int n * ulp x"
  shows "nearest x = x"
proof -
  from assms have "magnitude x = \<bar>x\<bar>" by (rule magnitude_exact)
  then show ?thesis by (simp add: nearest_def sgn_real_def)
qed

lemma round64_exact:
  assumes "\<bar>x\<bar> = of_int n * ulp x" and "\<bar>x\<bar> < overflow_bound"
  shows "round64 x = Float x"
proof -
  from assms(1) have "nearest x = x" by (rule nearest_exact)
  with assms(2) show ?thesis by (simp add: round64_def Let_def)
qed

lemma power_int_less_cancel: "(2::real) powi a < 2 powi b \<Longrightarrow> a < b"
  using power_int_increasing [of b a "2::real"] by (cases "a < b") auto

lemma is_float64_dyadic_strict:
  assumes k: "\<bar>k\<bar> < 2 ^ 53" and e: "- 1074 \<le> e"
    and b: "\<bar>of_int k * 2 powi e\<bar> < overflow_bound"
  shows "is_float64 (of_int k * 2 powi e)"
proof (cases "k = 0")
  case True
  then show ?thesis by simp
next
  case False
  let ?x = "real_of_int k * 2 powi e"
  define q where "q = max (exponent ?x - 52) (- 1074)"
  have pe: "(0::real) < 2 powi e" by (rule zero_less_power_int) simp
  have ax: "\<bar>?x\<bar> = of_int \<bar>k\<bar> * 2 powi e"
    using pe by (simp add: abs_mult)
  from False have "1 \<le> \<bar>k\<bar>" by simp
  then have "(1::real) \<le> of_int \<bar>k\<bar>" by (simp only: of_int_1_le_iff)
  then have "(1::real) * 2 powi e \<le> of_int \<bar>k\<bar> * 2 powi e"
    using pe by (intro mult_right_mono) simp_all
  with ax have lo: "2 powi e \<le> \<bar>?x\<bar>" by simp
  from e have "(2::real) powi (- 1074) \<le> 2 powi e"
    by (intro power_int_increasing) simp_all
  with lo have "2 powi (- 1074) \<le> \<bar>?x\<bar>" by linarith
  then have l: "2 powi (exponent ?x) \<le> \<bar>?x\<bar>" by (rule exponent_lower)
  from k have "real_of_int \<bar>k\<bar> < real_of_int (2 ^ 53)" by (simp only: of_int_less_iff)
  then have "of_int \<bar>k\<bar> * 2 powi e < (2::real) ^ 53 * 2 powi e"
    using pe by (intro mult_strict_right_mono) simp_all
  also have "(2::real) ^ 53 * 2 powi e = 2 powi (53 + e)"
    by (simp add: power_int_add)
  finally have "\<bar>?x\<bar> < 2 powi (53 + e)" using ax by simp
  with l have "(2::real) powi (exponent ?x) < 2 powi (53 + e)" by linarith
  then have "exponent ?x < 53 + e" by (rule power_int_less_cancel)
  with e have "0 \<le> e - q" by (simp add: q_def)
  then obtain n :: nat where "e - q = int n"
    using zero_le_imp_eq_int by blast
  then have n: "e = int n + q" by simp
  have u: "ulp ?x = 2 powi q" by (simp add: ulp_def q_def)
  have "\<bar>?x\<bar> = of_int (\<bar>k\<bar> * 2 ^ n) * ulp ?x"
    unfolding ax u by (subst n) (simp add: power_int_add)
  from round64_exact [OF this b] show ?thesis by (simp add: is_float64_def)
qed

lemma is_float64_dyadic:
  assumes k: "\<bar>k\<bar> \<le> 2 ^ 53" and e: "- 1074 \<le> e"
    and b: "\<bar>of_int k * 2 powi e\<bar> < overflow_bound"
  shows "is_float64 (of_int k * 2 powi e)"
proof (cases "\<bar>k\<bar> = 2 ^ 53")
  case False
  with k have "\<bar>k\<bar> < 2 ^ 53" by simp
  from this e b show ?thesis by (rule is_float64_dyadic_strict)
next
  case True
  define j :: int where "j = (if 0 \<le> k then 2 ^ 52 else - (2 ^ 52))"
  from True have j: "k = 2 * j" by (auto simp add: j_def)
  have jj: "\<bar>j\<bar> < 2 ^ 53" by (simp add: j_def)
  have x: "real_of_int k * 2 powi e = of_int j * 2 powi (e + 1)"
    by (simp add: j power_int_add)
  from b have b': "\<bar>of_int j * 2 powi (e + 1)\<bar> < overflow_bound" by (simp only: x)
  from e have "- 1074 \<le> e + 1" by simp
  from is_float64_dyadic_strict [OF jj this b'] show ?thesis by (simp only: x)
qed


lemma is_float64_round64: "is_float64 x \<Longrightarrow> round64 x = Float x"
  by (simp add: is_float64_def)

lemma is_float64_int: "\<bar>k\<bar> \<le> 2 ^ 53 \<Longrightarrow> is_float64 (of_int k)"
proof -
  assume k: "\<bar>k\<bar> \<le> 2 ^ 53"
  then have "real_of_int \<bar>k\<bar> \<le> real_of_int (2 ^ 53)" by (simp only: of_int_le_iff)
  then have "\<bar>real_of_int k * 2 powi 0\<bar> < overflow_bound" by (simp add: overflow_bound_def)
  from is_float64_dyadic [OF k _ this] show ?thesis by simp
qed

lemma is_float64_half: "\<bar>k\<bar> \<le> 2 ^ 53 \<Longrightarrow> is_float64 (of_int k / 2)"
proof -
  assume k: "\<bar>k\<bar> \<le> 2 ^ 53"
  then have "real_of_int \<bar>k\<bar> \<le> real_of_int (2 ^ 53)" by (simp only: of_int_le_iff)
  then have "\<bar>real_of_int k * 2 powi (- 1)\<bar> < overflow_bound"
    by (simp add: abs_mult overflow_bound_def)
  from is_float64_dyadic [OF k _ this] show ?thesis by (simp add: field_simps)
qed

lemma is_float64_quarter: "\<bar>k\<bar> \<le> 2 ^ 53 \<Longrightarrow> is_float64 (of_int k / 4)"
proof -
  assume k: "\<bar>k\<bar> \<le> 2 ^ 53"
  then have "real_of_int \<bar>k\<bar> \<le> real_of_int (2 ^ 53)" by (simp only: of_int_le_iff)
  then have "\<bar>real_of_int k * 2 powi (- 2)\<bar> < overflow_bound"
    by (simp add: abs_mult power_int_minus overflow_bound_def)
  from is_float64_dyadic [OF k _ this] show ?thesis by (simp add: field_simps power_int_minus)
qed

lemma is_float64_numeral [simp]: "numeral n \<le> (2::int) ^ 53 \<Longrightarrow> is_float64 (numeral n)"
  using is_float64_int [of "numeral n"] by simp

lemma is_float64_one [simp]: "is_float64 1"
  using is_float64_int [of 1] by simp

lemma is_float64_numeral_half [simp]:
  "numeral n \<le> (2::int) ^ 53 \<Longrightarrow> is_float64 (numeral n / 2)"
  using is_float64_half [of "numeral n"] by simp

lemma is_float64_numeral_quarter [simp]:
  "numeral n \<le> (2::int) ^ 53 \<Longrightarrow> is_float64 (numeral n / 4)"
  using is_float64_quarter [of "numeral n"] by simp

lemma is_float64_sixteenth: "\<bar>k\<bar> \<le> 2 ^ 53 \<Longrightarrow> is_float64 (of_int k / 16)"
proof -
  assume k: "\<bar>k\<bar> \<le> 2 ^ 53"
  then have "real_of_int \<bar>k\<bar> \<le> real_of_int (2 ^ 53)" by (simp only: of_int_le_iff)
  then have "\<bar>real_of_int k * 2 powi (- 4)\<bar> < overflow_bound"
    by (simp add: abs_mult power_int_minus overflow_bound_def)
  from is_float64_dyadic [OF k _ this] show ?thesis by (simp add: field_simps power_int_minus)
qed

lemma is_float64_numeral_sixteenth [simp]:
  "numeral n \<le> (2::int) ^ 53 \<Longrightarrow> is_float64 (numeral n / 16)"
  using is_float64_sixteenth [of "numeral n"] by simp

lemma is_float64_divide_power:
  assumes k: "\<bar>k\<bar> \<le> 2 ^ 53" and m: "m \<le> 1074"
  shows "is_float64 (of_int k / 2 ^ m)"
proof -
  from k have "real_of_int \<bar>k\<bar> \<le> real_of_int (2 ^ 53)" by (simp only: of_int_le_iff)
  then have a: "\<bar>real_of_int k\<bar> \<le> 2 ^ 53" by simp
  have "(1::real) \<le> 2 ^ m" by (rule one_le_power) simp
  then have "\<bar>real_of_int k\<bar> * 1 \<le> \<bar>real_of_int k\<bar> * 2 ^ m"
    by (intro mult_left_mono) simp_all
  then have "\<bar>real_of_int k\<bar> / 2 ^ m \<le> \<bar>real_of_int k\<bar>"
    by (simp add: divide_le_eq)
  with a have c: "\<bar>real_of_int k\<bar> / 2 ^ m \<le> 2 ^ 53" by linarith
  have e: "\<bar>real_of_int k * 2 powi (- int m)\<bar> = \<bar>real_of_int k\<bar> / 2 ^ m"
    by (simp add: abs_mult power_int_minus field_simps)
  have "(2::real) ^ 53 < overflow_bound" by (simp add: overflow_bound_def)
  with c have b: "\<bar>real_of_int k * 2 powi (- int m)\<bar> < overflow_bound"
    unfolding e by linarith
  from m have "- 1074 \<le> - int m" by simp
  from is_float64_dyadic [OF k this b] show ?thesis
    by (simp add: power_int_minus field_simps)
qed

lemma is_float64_one_half [simp]: "is_float64 (1 / 2)"
  using is_float64_half [of 1] by simp

lemma nearest_eval:
  assumes "2 powi e \<le> \<bar>x\<bar>" and "\<bar>x\<bar> < 2 powi (e + 1)" and "- 1022 \<le> e" and "e \<le> 1023"
  shows "nearest x = sgn x * (of_int (round_half_even (\<bar>x\<bar> / 2 powi (e - 52))) * 2 powi (e - 52))"
proof -
  from assms have e: "exponent x = e" by (intro exponent_eqI) simp_all
  from assms(3) have "max (e - 52) (- 1074) = e - 52" by simp
  then have "ulp x = 2 powi (e - 52)" by (simp only: ulp_def e)
  then show ?thesis by (simp only: nearest_def magnitude_def)
qed



lemma fdiv_round64_not_NaN: "q \<noteq> 0 \<Longrightarrow> fdiv (round64 x) (Float q) \<noteq> NaN"
  by (cases "round64 x") auto













subsection \<open>The loops of get\_predecessors\<close>

lemma foldl_nested:
  "foldl (\<lambda>acc x. foldl (\<lambda>acc y. f acc (x, y)) acc ys) a xs = foldl f a (List.product xs ys)"
  by (induction xs arbitrary: a) (simp_all add: foldl_map)

lemma classify_qstate_fields:
  "correct_qstates (classify_qstate P s c acc q) =
     correct_qstates acc @ (if \<not> is_init_qx_qy P (fst q) (snd q) \<and> cell_matches P s c q then [q] else [])"
  "incorrect_qstates (classify_qstate P s c acc q) =
     incorrect_qstates acc @ (if \<not> is_init_qx_qy P (fst q) (snd q) \<and> \<not> cell_matches P s c q then [q] else [])"
  "all_right (classify_qstate P s c acc q) =
     (all_right acc \<and> (is_init_qx_qy P (fst q) (snd q) \<or> cell_matches P s c q))"
  "all_wrong (classify_qstate P s c acc q) =
     (all_wrong acc \<and> (is_init_qx_qy P (fst q) (snd q) \<or> \<not> cell_matches P s c q))"
  by (cases q; simp add: cell_matches_def Let_def)+

lemma classify_fold_correct:
  "correct_qstates (foldl (classify_qstate P s c) acc qs)
     = correct_qstates acc @ filter (cell_matches P s c) (filter (\<lambda>q. \<not> is_init_qx_qy P (fst q) (snd q)) qs)"
  by (induction qs arbitrary: acc) (simp_all add: classify_qstate_fields)

lemma classify_fold_incorrect:
  "incorrect_qstates (foldl (classify_qstate P s c) acc qs)
     = incorrect_qstates acc @ filter (\<lambda>q. \<not> cell_matches P s c q) (filter (\<lambda>q. \<not> is_init_qx_qy P (fst q) (snd q)) qs)"
  by (induction qs arbitrary: acc) (simp_all add: classify_qstate_fields)

lemma classify_fold_all_right:
  "all_right (foldl (classify_qstate P s c) acc qs)
     = (all_right acc \<and> filter (\<lambda>q. \<not> cell_matches P s c q) (filter (\<lambda>q. \<not> is_init_qx_qy P (fst q) (snd q)) qs) = [])"
  by (induction qs arbitrary: acc) (auto simp add: classify_qstate_fields)

lemma classify_fold_all_wrong:
  "all_wrong (foldl (classify_qstate P s c) acc qs)
     = (all_wrong acc \<and> filter (cell_matches P s c) (filter (\<lambda>q. \<not> is_init_qx_qy P (fst q) (snd q)) qs) = [])"
  by (induction qs arbitrary: acc) (auto simp add: classify_qstate_fields)

lemma with_ids_append:
  "with_ids n (xs @ ys) = with_ids n xs @ with_ids (n + int (length xs)) ys"
  by (induction xs arbitrary: n) (simp_all add: algebra_simps)

lemma length_with_ids: "length (with_ids n xs) = length xs"
  by (induction xs arbitrary: n) simp_all

lemma all_incorrect_infeasible_iff:
  "all_incorrect_infeasible P st qs = list_all (\<lambda>q. is_feasible P (make_qstar P st q) = None) qs"
  by (induction qs) simp_all

lemma emit_unrestricted:
  "emit s None None c (rv, n) = Inr (rv @ with_ids n [unrestricted s c], n + 1)"
  by (simp add: emit_def copy_def assign_state_id_def unrestricted_def)

lemma emit_restricted:
  "is_feasible P (make_qstar P (star s) q) \<noteq> None \<Longrightarrow>
   emit s (Some (make_qstar P (star s) q)) (is_feasible P (make_qstar P (star s) q)) c (rv, n)
     = Inr (rv @ with_ids n [restricted P s c q], n + 1)"
  by (simp add: emit_def copy_def assign_state_id_def restricted_def)

lemma split_correct_eq:
  "split_correct P s c qs (rv, n) =
     Inr (rv @ with_ids n (map (restricted P s c) (filter (feasible_cell P s) qs)),
          n + int (length (filter (feasible_cell P s) qs)))"
proof (induction qs arbitrary: rv n)
  case Nil
  show ?case by simp
next
  case (Cons q qs)
  show ?case
  proof (cases "feasible_cell P s q")
    case True
    then have f: "is_feasible P (make_qstar P (star s) q) \<noteq> None"
      by (simp add: feasible_cell_def)
    show ?thesis
      using True f by (simp add: Let_def emit_restricted Cons.IH algebra_simps)
  next
    case False
    then show ?thesis by (simp add: Let_def feasible_cell_def Cons.IH)
  qed
qed

lemma classify_all_foldl:
  "classify_all P s c dxr dyr =
     foldl (classify_qstate P s c) classification_init
       (List.product [fst dxr .. snd dxr] [fst dyr .. snd dyr])"
  unfolding classify_all_def by (rule foldl_nested)

lemma classify_all_fields:
  "correct_qstates (classify_all P s c dxr dyr) = filter (cell_matches P s c) (sampled_cells P dxr dyr)"
  "incorrect_qstates (classify_all P s c dxr dyr) = filter (\<lambda>q. \<not> cell_matches P s c q) (sampled_cells P dxr dyr)"
  "all_right (classify_all P s c dxr dyr) = (filter (\<lambda>q. \<not> cell_matches P s c q) (sampled_cells P dxr dyr) = [])"
  "all_wrong (classify_all P s c dxr dyr) = (filter (cell_matches P s c) (sampled_cells P dxr dyr) = [])"
  unfolding classify_all_foldl classify_fold_correct classify_fold_incorrect
    classify_fold_all_right classify_fold_all_wrong sampled_cells_def
  by (simp_all add: classification_init_def)

lemma prev_cmd_body_eq:
  "prev_cmd_body P s dxr dyr c (rv, n) =
     Inr (rv @ with_ids n (spec_policy P s dxr dyr c), n + int (length (spec_policy P s dxr dyr c)))"
  by (simp add: prev_cmd_body_def spec_policy_def Let_def classify_all_fields
        all_incorrect_infeasible_iff emit_unrestricted split_correct_eq feasible_cell_def)

lemma for_prev_cmd_eq:
  "for_prev_cmd P s dxr dyr cs (rv, n) =
     Inr (rv @ with_ids n (concat (map (spec_policy P s dxr dyr) cs)),
          n + int (length (concat (map (spec_policy P s dxr dyr) cs))))"
  by (induction cs arbitrary: rv n)
     (simp_all add: prev_cmd_body_eq with_ids_append algebra_simps)

lemma get_predecessors_eq:
  "get_predecessors P s n =
     (case get_dx_dy_qrange P s of Inl e \<Rightarrow> Inl e | Inr unused \<Rightarrow>
     (case backstep P False (- 1) s of Inl e \<Rightarrow> Inl e | Inr s1 \<Rightarrow>
     (case get_dx_dy_qrange P s1 of Inl e \<Rightarrow> Inl e | Inr (dxr, dyr) \<Rightarrow>
        Inr (with_ids n (spec_predecessors P s1 dxr dyr), s1,
             n + int (length (spec_predecessors P s1 dxr dyr))))))"
  by (simp add: get_predecessors_def for_prev_cmd_eq spec_predecessors_def
        split: sum.splits prod.splits)

lemma neg_index_last: "xs \<noteq> [] \<Longrightarrow> neg_index xs (Suc 0) = Inr (last xs)"
  by (cases xs rule: rev_cases) (simp_all add: neg_index_def)

lemma neg_index_second: "neg_index (xs @ [x, y]) 2 = Inr x"
  by (simp add: neg_index_def nth_append)

lemma backstep_history:
  "backstep P f c s = Inr s1 \<Longrightarrow> alpha_prev_list s1 = alpha_prev_list s"
  by (auto simp add: backstep_def Let_def split: sum.splits if_splits)

lemma backstep_constants:
  "backstep P f c s = Inr s1 \<Longrightarrow> qv_own s1 = qv_own s \<and> qv_int s1 = qv_int s \<and>
     domain_witness s1 = domain_witness s \<and> state_id s1 = state_id s"
  by (auto simp add: backstep_def Let_def split: sum.splits if_splits)

lemma backstep_nonempty:
  "backstep P False c s = Inr s1 \<Longrightarrow> alpha_prev_list s \<noteq> []"
  by (auto simp add: backstep_def neg_index_def split: sum.splits if_splits)

lemma backstep_backward_ok:
  assumes "length (cmd_quantum_list P) = 5" "alpha_prev_list s \<noteq> []"
    "0 \<le> last (alpha_prev_list s)" "last (alpha_prev_list s) \<le> 4"
  shows "backstep P False c s =
     Inr (s\<lparr>star := (star s)\<lparr>
               a_mat := matmul P (get_time_elapse_mat P (last (alpha_prev_list s)) (- 1)) (a_mat (star s)),
               b_vec := matmul P (get_time_elapse_mat P (last (alpha_prev_list s)) (- 1)) (b_vec (star s))\<rparr>,
            qtheta1 := qtheta1 s - cmd_quantum_list P ! nat (last (alpha_prev_list s))\<rparr>)"
  using assms by (simp add: backstep_def neg_index_last Let_def)

lemma set_with_ids:
  "p \<in> set (with_ids n xs) \<Longrightarrow> \<exists>x \<in> set xs. \<exists>k. p = x\<lparr>state_id := k\<rparr>"
  by (induction xs arbitrary: n) auto

lemma spec_policy_history:
  "x \<in> set (spec_policy P s dxr dyr c) \<Longrightarrow> alpha_prev_list x = alpha_prev_list s @ [c]"
  by (auto simp add: spec_policy_def Let_def unrestricted_def restricted_def split: if_splits)

lemma spec_predecessors_history:
  "x \<in> set (spec_predecessors P s dxr dyr) \<Longrightarrow>
     \<exists>c. 0 \<le> c \<and> c \<le> 4 \<and> alpha_prev_list x = alpha_prev_list s @ [c]"
  by (auto simp add: spec_predecessors_def dest: spec_policy_history)

lemma get_predecessors_history:
  assumes "get_predecessors P s n = Inr (rv, s1, n')" "p \<in> set rv"
  shows "alpha_prev_list s \<noteq> [] \<and> alpha_prev_list s1 = alpha_prev_list s \<and>
         (\<exists>c. 0 \<le> c \<and> c \<le> 4 \<and> alpha_prev_list p = alpha_prev_list s @ [c])"
proof -
  from assms(1) obtain dxr dyr where
    b: "backstep P False (- 1) s = Inr s1" and
    rv: "rv = with_ids n (spec_predecessors P s1 dxr dyr)"
    by (auto simp add: get_predecessors_eq split: sum.splits prod.splits)
  from assms(2) rv obtain x k where
    x: "x \<in> set (spec_predecessors P s1 dxr dyr)" and p: "p = x\<lparr>state_id := k\<rparr>"
    by (auto dest: set_with_ids)
  from x obtain c where "0 \<le> c" "c \<le> 4" "alpha_prev_list x = alpha_prev_list s1 @ [c]"
    by (auto dest: spec_predecessors_history)
  with p b show ?thesis
    by (auto simp add: backstep_history dest: backstep_nonempty)
qed

lemma get_predecessors_receiver:
  "get_predecessors P s n = Inr (rv, s1, n') \<Longrightarrow> backstep P False (- 1) s = Inr s1"
  by (auto simp add: get_predecessors_eq split: sum.splits prod.splits)

subsection \<open>The command history\<close>

lemma State_init_history:
  "State_init P a qth qvo qvi st n = Inr (s0, n0) \<Longrightarrow> alpha_prev_list s0 = [a]"
  by (auto simp add: State_init_def assign_state_id_def Let_def split: if_splits)

lemma copy_history:
  "copy s ns nw n = Inr (s', n') \<Longrightarrow> alpha_prev_list s' = alpha_prev_list s"
  by (auto simp add: copy_def assign_state_id_def split: if_splits option.splits)

lemma history_ok_append:
  "history_ok s \<Longrightarrow> 0 \<le> c \<Longrightarrow> c \<le> 4 \<Longrightarrow> alpha_prev_list p = alpha_prev_list s @ [c]
     \<Longrightarrow> history_ok p"
  by (simp add: history_ok_def)

lemma for_predecessors_members:
  "for_predecessors P ps w = Inr (w', c) \<Longrightarrow>
     set w' \<subseteq> set w \<union> set ps \<and> (\<forall>p. c = Some p \<longrightarrow> p \<in> set ps)"
proof (induction ps arbitrary: w)
  case Nil
  then show ?case by auto
next
  case (Cons p ps)
  show ?case
  proof (cases "counterexample_test P p")
    case (Inl e)
    with Cons.prems show ?thesis by simp
  next
    case (Inr b)
    show ?thesis
    proof (cases b)
      case True
      with Inr Cons.prems show ?thesis by auto
    next
      case False
      with Inr Cons.prems have "for_predecessors P ps (w @ [p]) = Inr (w', c)" by simp
      from Cons.IH [OF this] show ?thesis by auto
    qed
  qed
qed

lemma while_body_history:
  assumes "list_all history_ok (work st)" and "work st \<noteq> []" and "while_body P st = Inr st'"
  shows "list_all history_ok (work st') \<and> (\<forall>p. found st' = Some p \<longrightarrow> history_ok p)"
proof -
  from assms(3) obtain ps s1 n w' c where
    g: "get_predecessors P (last (work st)) (next_id st) = Inr (ps, s1, n)" and
    f: "for_predecessors P ps (butlast (work st)) = Inr (w', c)" and
    st': "work st' = w'" "found st' = c"
    by (auto simp add: while_body_def Let_def split: sum.splits prod.splits)
  from assms(1,2) have l: "history_ok (last (work st))"
    by (simp add: list_all_iff)
  have ps: "\<forall>p \<in> set ps. history_ok p"
  proof
    fix p assume p: "p \<in> set ps"
    from get_predecessors_history [OF g p] l show "history_ok p"
      by (auto intro: history_ok_append)
  qed
  from assms(1) have bl: "\<forall>p \<in> set (butlast (work st)). history_ok p"
    by (auto simp add: list_all_iff dest: in_set_butlastD)
  from for_predecessors_members [OF f] ps bl st' show ?thesis
    by (auto simp add: list_all_iff)
qed

subsection \<open>The search up to identifiers\<close>

lemma erase_eqD: "erase s = erase t \<Longrightarrow> t = s\<lparr>state_id := state_id t\<rparr>"
  by (cases s, cases t) (simp add: erase_def)

lemma erase_update [simp]: "erase (s\<lparr>state_id := k\<rparr>) = erase s"
  by (simp add: erase_def)

lemma erase_history [simp]: "alpha_prev_list (erase s) = alpha_prev_list s"
  by (simp add: erase_def)

lemma map_erase_with_ids: "map erase (with_ids n xs) = map erase xs"
  by (induction xs arbitrary: n) simp_all

lemma get_dx_dy_qrange_id:
  "get_dx_dy_qrange P (s\<lparr>state_id := k\<rparr>) = get_dx_dy_qrange P s"
  by (simp add: get_dx_dy_qrange_def Let_def cong: sum.case_cong if_cong)

lemma backstep_id:
  "backstep P f c (s\<lparr>state_id := k\<rparr>) = map_sum id (\<lambda>s1. s1\<lparr>state_id := k\<rparr>) (backstep P f c s)"
  by (simp add: backstep_def Let_def split: sum.splits)

lemma cell_matches_id: "cell_matches P (s\<lparr>state_id := k\<rparr>) = cell_matches P s"
  by (intro ext) (simp add: cell_matches_def)

lemma feasible_cell_id: "feasible_cell P (s\<lparr>state_id := k\<rparr>) = feasible_cell P s"
  by (intro ext) (simp add: feasible_cell_def)

lemma unrestricted_id:
  "unrestricted (s\<lparr>state_id := k\<rparr>) c = (unrestricted s c)\<lparr>state_id := k\<rparr>"
  by (simp add: unrestricted_def)

lemma restricted_id:
  "restricted P (s\<lparr>state_id := k\<rparr>) c = (\<lambda>q. (restricted P s c q)\<lparr>state_id := k\<rparr>)"
  by (intro ext) (simp add: restricted_def)

lemma spec_policy_id:
  "spec_policy P (s\<lparr>state_id := k\<rparr>) dxr dyr =
     (\<lambda>c. map (\<lambda>x. x\<lparr>state_id := k\<rparr>) (spec_policy P s dxr dyr c))"
  by (rule ext)
     (simp add: spec_policy_def Let_def cell_matches_id feasible_cell_id
        unrestricted_id restricted_id comp_def)

lemma spec_predecessors_id:
  "spec_predecessors P (s\<lparr>state_id := k\<rparr>) dxr dyr =
     map (\<lambda>x. x\<lparr>state_id := k\<rparr>) (spec_predecessors P s dxr dyr)"
  by (simp add: spec_predecessors_def spec_policy_id map_concat comp_def)

lemma get_predecessors_id:
  "abstract_predecessors (get_predecessors P (s\<lparr>state_id := k\<rparr>) m)
     = abstract_predecessors (get_predecessors P s n)"
  by (simp add: abstract_predecessors_def get_predecessors_eq get_dx_dy_qrange_id backstep_id
        spec_predecessors_id map_erase_with_ids comp_def
        split: sum.splits prod.splits)

lemma get_predecessors_erase:
  assumes "erase s = erase t"
  shows "abstract_predecessors (get_predecessors P s n)
       = abstract_predecessors (get_predecessors P t m)"
proof -
  from assms have "t = s\<lparr>state_id := state_id t\<rparr>" by (rule erase_eqD)
  then show ?thesis using get_predecessors_id [where P = P and s = s and k = "state_id t" and m = m and n = n]
    by simp
qed

lemma counterexample_test_erase:
  "counterexample_test P (erase p) = counterexample_test P p"
  by (simp add: counterexample_test_def erase_def cong: sum.case_cong option.case_cong if_cong)

lemma counterexample_test_cong:
  "erase p = erase q \<Longrightarrow> counterexample_test P p = counterexample_test P q"
  by (metis counterexample_test_erase)

lemma for_predecessors_erase:
  assumes "map erase ps = map erase qs" and "map erase w = map erase v"
  shows "map_sum id (\<lambda>(w', c). (map erase w', map_option erase c)) (for_predecessors P ps w)
       = map_sum id (\<lambda>(w', c). (map erase w', map_option erase c)) (for_predecessors P qs v)"
  using assms
proof (induction ps arbitrary: qs w v)
  case Nil
  then show ?case by simp
next
  case (Cons p ps)
  then obtain q qs' where qs: "qs = q # qs'" and pq: "erase p = erase q"
    and rest: "map erase ps = map erase qs'"
    by (cases qs) auto
  have t: "counterexample_test P p = counterexample_test P q"
    using pq by (rule counterexample_test_cong)
  have w': "map erase (w @ [p]) = map erase (v @ [q])"
    using Cons.prems(2) pq by simp
  show ?case
    using Cons.IH [OF rest w'] pq Cons.prems(2)
    by (simp add: qs t split: sum.splits)
qed

lemma last_map_erase: "map erase w = map erase v \<Longrightarrow> w \<noteq> [] \<Longrightarrow> erase (last w) = erase (last v)"
  by (metis last_map map_is_Nil_conv)

lemma butlast_map_erase: "map erase w = map erase v \<Longrightarrow> map erase (butlast w) = map erase (butlast v)"
  by (metis map_butlast)

lemma while_body_erase:
  assumes "abstract_search st = abstract_search st'" and "work st \<noteq> []"
  shows "map_sum id abstract_search (while_body P st) = map_sum id abstract_search (while_body P st')"
proof -
  from assms have w: "map erase (work st) = map erase (work st')"
    and p: "popped st = popped st'" and d: "deadends st = deadends st'"
    by (simp_all add: abstract_search_def)
  have l: "erase (last (work st)) = erase (last (work st'))"
    using w assms(2) by (rule last_map_erase)
  have bl: "map erase (butlast (work st)) = map erase (butlast (work st'))"
    using w by (rule butlast_map_erase)
  have g: "abstract_predecessors (get_predecessors P (last (work st)) (next_id st))
         = abstract_predecessors (get_predecessors P (last (work st')) (next_id st'))"
    using l by (rule get_predecessors_erase)
  show ?thesis
  proof (cases "get_predecessors P (last (work st)) (next_id st)")
    case (Inl e)
    with g have "get_predecessors P (last (work st')) (next_id st') = Inl e"
      by (cases "get_predecessors P (last (work st')) (next_id st')")
         (simp_all add: abstract_predecessors_def)
    with Inl show ?thesis by (simp add: while_body_def Let_def)
  next
    case (Inr r)
    obtain ps s1 n where r: "r = (ps, s1, n)" by (cases r) auto
    from g Inr r obtain qs t1 m where
      g': "get_predecessors P (last (work st')) (next_id st') = Inr (qs, t1, m)"
      and pq: "map erase ps = map erase qs" and st: "erase s1 = erase t1"
      by (cases "get_predecessors P (last (work st')) (next_id st')")
         (auto simp add: abstract_predecessors_def)
    have e: "(ps = []) = (qs = [])" using pq by (metis map_is_Nil_conv)
    have h: "alpha_prev_list s1 = alpha_prev_list t1"
      using st by (metis erase_history)
    show ?thesis
      using for_predecessors_erase [OF pq bl, of P] Inr r g' p d e h
      by (auto simp add: while_body_def Let_def abstract_search_def split: sum.splits)
  qed
qed

lemma while_loop_erase:
  "abstract_search st = abstract_search st' \<Longrightarrow>
   map_option (map_sum id abstract_search) (while_loop fuel P st)
     = map_option (map_sum id abstract_search) (while_loop fuel P st')"
proof (induction fuel arbitrary: st st')
  case 0
  then have "(work st \<noteq> [] \<and> found st = None) = (work st' \<noteq> [] \<and> found st' = None)"
    by (auto simp add: abstract_search_def)
  with 0 show ?case by (auto simp add: while_loop.simps [of 0])
next
  case (Suc fuel)
  have c: "(work st \<noteq> [] \<and> found st = None) = (work st' \<noteq> [] \<and> found st' = None)"
    using Suc.prems by (auto simp add: abstract_search_def)
  show ?case
  proof (cases "work st \<noteq> [] \<and> found st = None")
    case False
    with c Suc.prems show ?thesis by (auto simp add: while_loop.simps [of "Suc fuel"])
  next
    case True
    with c have True': "work st' \<noteq> [] \<and> found st' = None" by simp
    from True have ne: "work st \<noteq> []" by simp
    note b = while_body_erase [OF Suc.prems ne, of P]
    show ?thesis
    proof (cases "while_body P st")
      case (Inl e)
      with b have "while_body P st' = Inl e"
        by (cases "while_body P st'") simp_all
      with Inl True True' show ?thesis by (simp add: while_loop.simps [of "Suc fuel"])
    next
      case (Inr st1)
      with b obtain st1' where b': "while_body P st' = Inr st1'"
        and a: "abstract_search st1 = abstract_search st1'"
        by (cases "while_body P st'") simp_all
      from Suc.IH [OF a] Inr b' True True' show ?thesis
        by (simp add: while_loop.simps [of "Suc fuel"])
    qed
  qed
qed

lemma State_init_erase:
  "map_sum id (\<lambda>(s, k). erase s) (State_init P a qth qvo qvi st n)
     = map_sum id (\<lambda>(s, k). erase s) (State_init P a qth qvo qvi st m)"
  by (simp add: State_init_def assign_state_id_def Let_def erase_def)

subsection \<open>The counterexample test\<close>

lemma sqrt_gt_10000: "(10000 < sqrt x) = (10000\<^sup>2 < x)"
proof -
  have "sqrt (10000\<^sup>2) = (10000::real)" by simp
  then have "(10000 < sqrt x) = (sqrt (10000\<^sup>2) < sqrt x)" by simp
  also have "\<dots> = (10000\<^sup>2 < x)" by (rule real_sqrt_less_iff)
  finally show ?thesis .
qed

lemma fgt_sqrt:
  "fgt (case z of Float r \<Rightarrow> Float (sqrt r) | PosInf \<Rightarrow> PosInf | NegInf \<Rightarrow> NegInf | NaN \<Rightarrow> NaN)
       (Float 10000)
     = fgt z (Float 100000000)"
  by (cases z) (simp_all add: sqrt_gt_10000)

lemma counterexample_test_iff:
  "counterexample_test P p = Inr b \<Longrightarrow> b = spec_counterexample P p"
  by (auto simp add: counterexample_test_def spec_counterexample_def separation_def
        squared_separation_def coord_def fgt_sqrt Let_def
        split: sum.splits if_splits option.splits)

lemma for_predecessors_scan:
  assumes "list_all (\<lambda>x. \<not> isl (counterexample_test P x)) ps"
  shows "for_predecessors P ps w =
     Inr (w @ takeWhile (\<lambda>x. \<not> spec_counterexample P x) ps
            @ take 1 (dropWhile (\<lambda>x. \<not> spec_counterexample P x) ps),
          find (spec_counterexample P) ps)"
  using assms
proof (induction ps arbitrary: w)
  case Nil
  show ?case by simp
next
  case (Cons p ps)
  from Cons.prems obtain b where b: "counterexample_test P p = Inr b"
    by (cases "counterexample_test P p") auto
  then have sb: "spec_counterexample P p = b"
    by (rule counterexample_test_iff [symmetric])
  from Cons.prems have rest: "list_all (\<lambda>x. \<not> isl (counterexample_test P x)) ps" by simp
  show ?case
    using Cons.IH [OF rest, of "w @ [p]"] b sb by simp
qed


lemma while_body_pass:
  assumes "get_predecessors P (last (work st)) (next_id st) = Inr (ps, s1, n)"
    and "list_all (\<lambda>x. \<not> isl (counterexample_test P x)) ps"
  shows "while_body P st = Inr (spec_pass P st ps s1 n)"
  using assms by (simp add: while_body_def Let_def for_predecessors_scan spec_pass_def)




subsection \<open>The quantized range\<close>











subsection \<open>Initial cells\<close>

lemma sampled_cells_not_initial:
  "list_all (\<lambda>q. \<not> is_init_qx_qy P (fst q) (snd q)) (sampled_cells P dxr dyr)"
  by (simp add: sampled_cells_def list_all_iff)

lemma spec_policy_stars:
  assumes "p \<in> set (spec_policy P s dxr dyr c)"
  shows "(star p = star s \<and> domain_witness p = domain_witness s)
       \<or> (\<exists>q \<in> set (sampled_cells P dxr dyr).
             star p = make_qstar P (star s) q \<and> domain_witness p = is_feasible P (star p)
           \<and> domain_witness p \<noteq> None)"
  using assms
  by (auto simp add: spec_policy_def Let_def unrestricted_def restricted_def feasible_cell_def
        split: if_splits)

lemma get_cmd_update_fields:
  "is_feasible (P\<lparr>get_cmd := g\<rparr>) = is_feasible P"
  "make_qstar (P\<lparr>get_cmd := g\<rparr>) = make_qstar P"
  "is_init_qx_qy (P\<lparr>get_cmd := g\<rparr>) = is_init_qx_qy P"
  by simp_all

lemma spec_policy_get_cmd:
  assumes "\<And>prev qdx qdy th vo vi. \<not> is_init_qx_qy P qdx qdy \<Longrightarrow>
             g prev qdx qdy th vo vi = get_cmd P prev qdx qdy th vo vi"
  shows "spec_policy (P\<lparr>get_cmd := g\<rparr>) s dxr dyr c = spec_policy P s dxr dyr c"
proof -
  have cells: "sampled_cells (P\<lparr>get_cmd := g\<rparr>) dxr dyr = sampled_cells P dxr dyr"
    by (simp add: sampled_cells_def)
  have m: "\<And>q. q \<in> set (sampled_cells P dxr dyr) \<Longrightarrow>
             cell_matches (P\<lparr>get_cmd := g\<rparr>) s c q = cell_matches P s c q"
    using assms by (simp add: sampled_cells_def cell_matches_def)
  have f1: "filter (cell_matches (P\<lparr>get_cmd := g\<rparr>) s c) (sampled_cells P dxr dyr)
          = filter (cell_matches P s c) (sampled_cells P dxr dyr)"
    using m by (intro filter_cong) auto
  have f2: "filter (\<lambda>q. \<not> cell_matches (P\<lparr>get_cmd := g\<rparr>) s c q) (sampled_cells P dxr dyr)
          = filter (\<lambda>q. \<not> cell_matches P s c q) (sampled_cells P dxr dyr)"
    using m by (intro filter_cong) auto
  have fc: "feasible_cell (P\<lparr>get_cmd := g\<rparr>) s = feasible_cell P s"
    by (intro ext) (simp add: feasible_cell_def)
  have r: "restricted (P\<lparr>get_cmd := g\<rparr>) s c = restricted P s c"
    by (intro ext) (simp add: restricted_def)
  show ?thesis
    by (simp add: spec_policy_def Let_def cells f1 f2 fc r)
qed

lemma get_predecessors_get_cmd:
  assumes "\<And>prev qdx qdy th vo vi. \<not> is_init_qx_qy P qdx qdy \<Longrightarrow>
             g prev qdx qdy th vo vi = get_cmd P prev qdx qdy th vo vi"
  shows "get_predecessors (P\<lparr>get_cmd := g\<rparr>) s n = get_predecessors P s n"
proof -
  have q: "\<And>t. get_dx_dy_qrange (P\<lparr>get_cmd := g\<rparr>) t = get_dx_dy_qrange P t"
    by (simp add: get_dx_dy_qrange_def Let_def cong: sum.case_cong if_cong)
  have b: "backstep (P\<lparr>get_cmd := g\<rparr>) False (- 1) s = backstep P False (- 1) s"
    by (simp add: backstep_def Let_def cong: sum.case_cong if_cong)
  have "\<And>t dxr dyr. spec_policy (P\<lparr>get_cmd := g\<rparr>) t dxr dyr = spec_policy P t dxr dyr"
    by (rule ext) (rule spec_policy_get_cmd, rule assms)
  then have sp: "\<And>t dxr dyr. spec_predecessors (P\<lparr>get_cmd := g\<rparr>) t dxr dyr = spec_predecessors P t dxr dyr"
    by (simp add: spec_predecessors_def)
  show ?thesis
    unfolding get_predecessors_eq q b sp ..
qed

subsection \<open>The tests of the driver do not raise\<close>

lemma counterexample_test_defined:
  assumes "2 \<le> length (alpha_prev_list p)" and "domain_witness p \<noteq> None"
    and "range_points_ok P"
  shows "\<not> isl (counterexample_test P p)"
  using assms
  by (auto simp add: counterexample_test_def neg_index_def coord_def range_points_ok_def Let_def
        split: sum.splits option.splits)

lemma get_predecessors_witnesses:
  assumes g: "get_predecessors P s n = Inr (rv, s1, n')" and w: "domain_witness s \<noteq> None"
    and p: "p \<in> set rv"
  shows "domain_witness p \<noteq> None"
proof -
  from g obtain dxr dyr where
    b: "backstep P False (- 1) s = Inr s1" and
    rv: "rv = with_ids n (spec_predecessors P s1 dxr dyr)"
    by (auto simp add: get_predecessors_eq split: sum.splits prod.splits)
  from p rv obtain x k where x: "x \<in> set (spec_predecessors P s1 dxr dyr)"
    and px: "p = x\<lparr>state_id := k\<rparr>"
    by (auto dest: set_with_ids)
  from x obtain c where "x \<in> set (spec_policy P s1 dxr dyr c)"
    by (auto simp add: spec_predecessors_def)
  from spec_policy_stars [OF this] backstep_constants [OF b] w px show ?thesis
    by auto
qed

lemma get_predecessors_tests_defined:
  assumes g: "get_predecessors P s n = Inr (rv, s1, n')" and w: "domain_witness s \<noteq> None"
    and r: "range_points_ok P"
  shows "list_all (\<lambda>x. \<not> isl (counterexample_test P x)) rv"
  unfolding list_all_iff
proof
  fix p assume p: "p \<in> set rv"
  from get_predecessors_history [OF g p] have "2 \<le> length (alpha_prev_list p)"
    by (cases "alpha_prev_list s") auto
  with get_predecessors_witnesses [OF g w p] r show "\<not> isl (counterexample_test P p)"
    by (intro counterexample_test_defined)
qed

subsection \<open>Copies on the store\<close>

lemma heap_ok_lt: "heap_ok h \<Longrightarrow> objs h a = Some ob \<Longrightarrow> a < next_addr h"
  by (metis heap_ok_def not_le option.distinct(1))

lemma heap_copy_clone:
  assumes ok: "heap_ok h" and s: "state_at h self so hist st w"
  shows "\<exists>h'. heap_copy h self None nw = Inr (next_addr h, h')
       \<and> objs h' (next_addr h) =
           Some (StateObj (so\<lparr>o_alpha_prev_list := next_addr h + 1,
                               o_star := Some (next_addr h + 2),
                               o_domain_witness := Some (next_addr h + 3),
                               o_state_id := class_next_state_id h\<rparr>))
       \<and> objs h' (next_addr h + 1) = Some (ListObj hist)
       \<and> objs h' (next_addr h + 2) = Some (StarObj st)
       \<and> objs h' (next_addr h + 3) = Some (ArrayObj w)
       \<and> (\<forall>a. a < next_addr h \<longrightarrow> objs h' a = objs h a)
       \<and> (\<forall>a so'. objs h' a = Some (StateObj so') \<longrightarrow>
              a = next_addr h \<or> objs h a = Some (StateObj so'))
       \<and> next_addr h' = next_addr h + 4
       \<and> class_next_state_id h' = class_next_state_id h + 1
       \<and> heap_ok h'"
proof -
  from s obtain sa wa where
    so: "objs h self = Some (StateObj so)" and
    l: "objs h (o_alpha_prev_list so) = Some (ListObj hist)" and
    sa: "o_star so = Some sa" "objs h sa = Some (StarObj st)" and
    wa: "o_domain_witness so = Some wa" "objs h wa = Some (ArrayObj w)"
    by (auto simp add: state_at_def split: option.splits)
  from ok so l sa wa have lt: "self < next_addr h" "o_alpha_prev_list so < next_addr h"
    "sa < next_addr h" "wa < next_addr h"
    by (auto dest: heap_ok_lt)
  show ?thesis
    using so l sa wa lt ok
    by (auto simp add: heap_copy_def heap_deepcopy_def deepcopy_ref_def deepcopy_attr_def alloc_def
          heap_assign_state_id_def set_attrs_def heap_ok_def Let_def)
qed

lemma heap_copy_replace:
  assumes ok: "heap_ok h" and s: "state_at h self so hist st w"
  shows "\<exists>h'. heap_copy h self (Some a) (Some b) = Inr (next_addr h, h')
       \<and> objs h' (next_addr h) =
           Some (StateObj (so\<lparr>o_alpha_prev_list := next_addr h + 1,
                               o_star := Some a,
                               o_domain_witness := Some b,
                               o_state_id := class_next_state_id h\<rparr>))
       \<and> objs h' (next_addr h + 1) = Some (ListObj hist)
       \<and> (\<forall>a. a < next_addr h \<longrightarrow> objs h' a = objs h a)
       \<and> (\<forall>a so'. objs h' a = Some (StateObj so') \<longrightarrow>
              a = next_addr h \<or> objs h a = Some (StateObj so'))
       \<and> next_addr h' = next_addr h + 3
       \<and> class_next_state_id h' = class_next_state_id h + 1
       \<and> heap_ok h'"
proof -
  from s obtain sa wa where
    so: "objs h self = Some (StateObj so)" and
    l: "objs h (o_alpha_prev_list so) = Some (ListObj hist)" and
    sa: "o_star so = Some sa" "objs h sa = Some (StarObj st)" and
    wa: "o_domain_witness so = Some wa" "objs h wa = Some (ArrayObj w)"
    by (auto simp add: state_at_def split: option.splits)
  from ok so l sa wa have lt: "self < next_addr h" "o_alpha_prev_list so < next_addr h"
    "sa < next_addr h" "wa < next_addr h"
    by (auto dest: heap_ok_lt)
  have r: "so\<lparr>o_star := None\<rparr>\<lparr>o_star := Some sa\<rparr> = so"
    using sa(1) by (cases so) simp
  show ?thesis
    using so l sa wa lt ok r
    by (auto simp add: heap_copy_def heap_deepcopy_def deepcopy_ref_def deepcopy_attr_def alloc_def
          heap_assign_state_id_def set_attrs_def heap_ok_def Let_def)
qed

lemma empty_heap_ok: "heap_ok empty_heap \<and> ids_ok empty_heap"
  by (simp add: heap_ok_def ids_ok_def empty_heap_def)

lemma copy_guard:
  "heap_copy h self (Some a) None = Inl AssertionError"
  "copy s (Some st) None n = Inl AssertionError"
  by (simp_all add: heap_copy_def copy_def)

lemma heap_State_init_ok:
  assumes ok: "heap_ok h" and ids: "ids_ok h"
    and st: "objs h star_addr = Some (StarObj st)" and w: "is_feasible P st = Some w"
  shows "\<exists>h'. heap_State_init P h c qth qvo qvi star_addr = Inr (next_addr h + 2, h')
       \<and> state_at h' (next_addr h + 2)
             \<lparr>o_qtheta1 = qth, o_qv_own = qvo, o_qv_int = qvi, o_alpha_prev_list = next_addr h,
              o_star = Some star_addr, o_domain_witness = Some (next_addr h + 1),
              o_state_id = class_next_state_id h\<rparr> [c] st w
       \<and> (\<forall>a. a < next_addr h \<longrightarrow> objs h' a = objs h a)
       \<and> class_next_state_id h' = class_next_state_id h + 1
       \<and> heap_ok h' \<and> ids_ok h'"
proof -
  from ok st have lt: "star_addr < next_addr h" by (auto dest: heap_ok_lt)
  have old: "\<And>a so. objs h a = Some (StateObj so) \<Longrightarrow>
      a < next_addr h \<and> o_state_id so < class_next_state_id h"
    using ok ids by (auto dest: heap_ok_lt simp add: ids_ok_def)
  show ?thesis
    using st w lt ok
    by (auto simp add: heap_State_init_def alloc_def heap_assign_state_id_def set_attrs_def
          state_at_def heap_ok_def ids_ok_def Let_def dest: old)
qed

lemma read_state_at:
  "state_at h a so hist st w \<Longrightarrow>
   read_state h a =
     Some \<lparr>qtheta1 = o_qtheta1 so, qv_own = o_qv_own so, qv_int = o_qv_int so,
           alpha_prev_list = hist, star = st, domain_witness = Some w,
           state_id = o_state_id so\<rparr>"
  by (auto simp add: state_at_def read_state_def read_star_def read_array_def
        split: option.splits)


lemma heap_deepcopy_clone:
  assumes ok: "heap_ok h" and s: "state_at h self so hist st w"
  shows "\<exists>h'. heap_deepcopy h self = Inr (next_addr h, h')
       \<and> objs h' (next_addr h) =
           Some (StateObj (so\<lparr>o_alpha_prev_list := next_addr h + 1,
                               o_star := Some (next_addr h + 2),
                               o_domain_witness := Some (next_addr h + 3)\<rparr>))
       \<and> objs h' (next_addr h + 1) = Some (ListObj hist)
       \<and> objs h' (next_addr h + 2) = Some (StarObj st)
       \<and> objs h' (next_addr h + 3) = Some (ArrayObj w)
       \<and> (\<forall>a. a < next_addr h \<longrightarrow> objs h' a = objs h a)
       \<and> (\<forall>a so'. objs h' a = Some (StateObj so') \<longrightarrow>
              o_state_id so' = o_state_id so \<or> objs h a = Some (StateObj so'))
       \<and> next_addr h' = next_addr h + 4
       \<and> class_next_state_id h' = class_next_state_id h
       \<and> heap_ok h'"
proof -
  from s obtain sa wa where
    so: "objs h self = Some (StateObj so)" and
    l: "objs h (o_alpha_prev_list so) = Some (ListObj hist)" and
    sa: "o_star so = Some sa" "objs h sa = Some (StarObj st)" and
    wa: "o_domain_witness so = Some wa" "objs h wa = Some (ArrayObj w)"
    by (auto simp add: state_at_def split: option.splits)
  from ok so l sa wa have lt: "self < next_addr h" "o_alpha_prev_list so < next_addr h"
    "sa < next_addr h" "wa < next_addr h"
    by (auto dest: heap_ok_lt)
  show ?thesis
    using so l sa wa lt ok
    by (auto simp add: heap_deepcopy_def deepcopy_ref_def deepcopy_attr_def alloc_def
          heap_ok_def Let_def)
qed

lemma heap_deepcopy_ids:
  assumes ok: "heap_ok h" and ids: "ids_ok h" and s: "state_at h self so hist st w"
    and c: "heap_deepcopy h self = Inr (rv, h')"
  shows "ids_ok h'"
proof -
  from s have so: "objs h self = Some (StateObj so)" by (simp add: state_at_def)
  from heap_deepcopy_clone [OF ok s] c have
    new: "\<forall>a so'. objs h' a = Some (StateObj so') \<longrightarrow>
              o_state_id so' = o_state_id so \<or> objs h a = Some (StateObj so')"
    and n: "class_next_state_id h' = class_next_state_id h"
    by auto
  from ids so have "o_state_id so < class_next_state_id h" by (auto simp add: ids_ok_def)
  with new n ids show ?thesis
    unfolding ids_ok_def by metis
qed

text \<open>
  The copy on values used by \<open>get_predecessors\<close> is what the copy on the store gives when
  the new object is read back.
\<close>

lemma heap_copy_refines_copy:
  assumes ok: "heap_ok h" and s: "state_at h self so hist st w"
    and ns: "new_star \<noteq> None \<Longrightarrow> read_star h new_star \<noteq> None"
    and nw: "new_domain_witness \<noteq> None \<Longrightarrow> read_array h new_domain_witness \<noteq> None"
  shows "map_sum id (\<lambda>(rv, h'). (read_state h' rv, class_next_state_id h'))
           (heap_copy h self new_star new_domain_witness)
       = map_sum id (\<lambda>(s', n). (Some s', n))
           (copy \<lparr>qtheta1 = o_qtheta1 so, qv_own = o_qv_own so, qv_int = o_qv_int so,
                  alpha_prev_list = hist, star = st, domain_witness = Some w,
                  state_id = o_state_id so\<rparr>
              (read_star h new_star) (read_array h new_domain_witness) (class_next_state_id h))"
proof (cases "new_star \<noteq> None \<and> new_domain_witness = None")
  case True
  with ns show ?thesis
    by (auto simp add: heap_copy_def copy_def read_array_def)
next
  case False
  have old: "\<And>a. objs h a \<noteq> None \<Longrightarrow> a < next_addr h"
    using ok by (auto dest: heap_ok_lt)
  show ?thesis
  proof (cases new_star)
    case None
    from heap_copy_clone [OF ok s, of new_domain_witness] obtain h' where
      c: "heap_copy h self None new_domain_witness = Inr (next_addr h, h')"
      and o: "objs h' (next_addr h) =
           Some (StateObj (so\<lparr>o_alpha_prev_list := next_addr h + 1,
                               o_star := Some (next_addr h + 2),
                               o_domain_witness := Some (next_addr h + 3),
                               o_state_id := class_next_state_id h\<rparr>))"
      and r: "objs h' (next_addr h + 1) = Some (ListObj hist)"
        "objs h' (next_addr h + 2) = Some (StarObj st)"
        "objs h' (next_addr h + 3) = Some (ArrayObj w)"
      and n: "class_next_state_id h' = class_next_state_id h + 1"
      by blast
    from o r have "read_state h' (next_addr h) =
        Some \<lparr>qtheta1 = o_qtheta1 so, qv_own = o_qv_own so, qv_int = o_qv_int so,
           alpha_prev_list = hist, star = st, domain_witness = Some w,
           state_id = class_next_state_id h\<rparr>"
      by (simp add: read_state_def read_star_def read_array_def)
    with c n None show ?thesis
      by (simp add: copy_def assign_state_id_def read_star_def)
  next
    case (Some a)
    with False obtain b where b: "new_domain_witness = Some b" by auto
    from ns Some obtain nst where nst: "objs h a = Some (StarObj nst)"
      by (auto simp add: read_star_def split: option.splits obj.splits)
    from nw b obtain nwv where nwv: "objs h b = Some (ArrayObj nwv)"
      by (auto simp add: read_array_def split: option.splits obj.splits)
    from heap_copy_replace [OF ok s, of a b] obtain h' where
      c: "heap_copy h self (Some a) (Some b) = Inr (next_addr h, h')"
      and o: "objs h' (next_addr h) =
           Some (StateObj (so\<lparr>o_alpha_prev_list := next_addr h + 1,
                               o_star := Some a,
                               o_domain_witness := Some b,
                               o_state_id := class_next_state_id h\<rparr>))"
      and r: "objs h' (next_addr h + 1) = Some (ListObj hist)"
      and f: "\<forall>a. a < next_addr h \<longrightarrow> objs h' a = objs h a"
      and n: "class_next_state_id h' = class_next_state_id h + 1"
      by blast
    from nst nwv f old have k: "objs h' a = Some (StarObj nst)" "objs h' b = Some (ArrayObj nwv)"
      by simp_all
    from o r k have "read_state h' (next_addr h) =
        Some \<lparr>qtheta1 = o_qtheta1 so, qv_own = o_qv_own so, qv_int = o_qv_int so,
           alpha_prev_list = hist, star = nst, domain_witness = Some nwv,
           state_id = class_next_state_id h\<rparr>"
      by (simp add: read_state_def read_star_def read_array_def)
    with c n Some b nst nwv show ?thesis
      by (simp add: copy_def assign_state_id_def read_star_def read_array_def)
  qed
qed

section \<open>Runs of the instance\<close>

text \<open>The model evaluated on the small instance, for the concrete statements below.\<close>

lemma demo_fields:
  "is_feasible demo st = (if fst (box st) \<le> snd (box st)
                           then Some [(fst (box st) + snd (box st)) / 2] else None)"
  "minimize_vec demo st v =
         [0, 0, a_mat st * (if 0 \<le> v ! 2 * a_mat st then fst (box st) else snd (box st))
                  + b_vec st]"
  "domain_to_range demo st d = [0, 0, a_mat st * hd d + b_vec st]"
  "make_qstar demo st q =
        (if snd q \<le> 0 \<and> 0 \<le> snd q + 1
         then st\<lparr>box := (max (fst (box st)) ((of_int (fst q) - b_vec st) / a_mat st),
                          min (snd (box st)) ((of_int (fst q) + 1 - b_vec st) / a_mat st))\<rparr>
         else st\<lparr>box := (1, 0)\<rparr>)"
  "is_init_qx_qy demo qdx qdy = (qdx = 0 \<and> qdy = 0)"
  "get_cmd demo prev_cmd qdx qdy qth qvo qvi =
        (if prev_cmd = 0 then 0
         else if prev_cmd = 1 then (if qdx \<le> 1 then 0 else 1)
         else if prev_cmd = 2 then (if qdx = 2 then 0 else 1)
         else prev_cmd)"
  "get_time_elapse_mat demo cmd dt = (if dt < 0 then 1 / 2 else 2)"
  "init_to_constraints demo x_own y_own v_own v_int theta1 =
         ((of_int (fst x_own), of_int (snd x_own)), 1, 0)"
  "matmul demo = (*)"
  "pos demo = 1"
  "cmd_quantum_list demo = [0, 1, - 1, 2, - 2]"
  "X_OWN demo = 0" "Y_OWN demo = 1" "X_INT demo = 2" "NUM_VARS demo = 3"
  by (simp_all add: demo_def)

lemma demo_qrange:
  "0 < a_mat (star s) \<Longrightarrow> b_vec (star s) = 0 \<Longrightarrow>
   is_float64 (a_mat (star s) * fst (box (star s))) \<Longrightarrow>
   is_float64 (a_mat (star s) * snd (box (star s))) \<Longrightarrow>
   get_dx_dy_qrange demo s =
     Inr ((\<lfloor>a_mat (star s) * fst (box (star s))\<rfloor>, \<lceil>a_mat (star s) * snd (box (star s))\<rceil>), (0, 0))"
  by (simp add: get_dx_dy_qrange_def demo_fields dot_def Let_def numeral_3_eq_3 zero_le_mult_iff
        is_float64_def)

lemma providers_ok_demo: "providers_ok demo"
  by (simp add: providers_ok_def demo_fields)

lemma demo_backstep:
  "backstep demo False c (demo_state 1 lo hi [0]) = Inr (demo_state (1 / 2) lo hi [0])"
  by (simp add: backstep_def demo_fields demo_state_def neg_index_def)

lemma demo_sampled_cells: "sampled_cells demo (1, 3) (0, 0) = [(1, 0), (2, 0), (3, 0)]"
  by (simp add: sampled_cells_def demo_fields upto_rec1)

lemma demo_spec_policy:
  "concat (map (spec_policy demo (demo_state (1 / 2) 3 5 [0]) (1, 3) (0, 0)) [0 .. 4]) =
     [demo_state (1 / 2) 3 5 [0, 0], demo_state (1 / 2) 3 4 [0, 1], demo_state (1 / 2) 4 5 [0, 2]]"
  by (simp add: spec_policy_def demo_sampled_cells cell_matches_def feasible_cell_def
      demo_fields demo_state_def unrestricted_def restricted_def upto_rec1 Let_def)

lemma demo_get_predecessors:
  "get_predecessors demo (demo_state 1 3 5 [0]) 5 =
     Inr ([(demo_state (1 / 2) 3 5 [0, 0])\<lparr>state_id := 5\<rparr>,
           (demo_state (1 / 2) 3 4 [0, 1])\<lparr>state_id := 6\<rparr>,
           (demo_state (1 / 2) 4 5 [0, 2])\<lparr>state_id := 7\<rparr>],
          demo_state (1 / 2) 3 5 [0], 8)"
proof -
  have q0: "get_dx_dy_qrange demo (demo_state 1 3 5 [0]) = Inr ((3, 5), (0, 0))"
    by (simp add: demo_qrange demo_state_def)
  have q: "get_dx_dy_qrange demo (demo_state (1 / 2) 3 5 [0]) = Inr ((1, 3), (0, 0))"
    by (simp add: demo_qrange demo_state_def)
  show ?thesis
    by (simp add: get_predecessors_eq q0 q demo_backstep spec_predecessors_def demo_spec_policy)
qed

lemma demo_split_fields:
  "is_feasible demo_split = is_feasible demo"
  "minimize_vec demo_split = minimize_vec demo"
  "domain_to_range demo_split = domain_to_range demo"
  "make_qstar demo_split = make_qstar demo"
  "is_init_qx_qy demo_split = is_init_qx_qy demo"
  "get_cmd demo_split prev_cmd qdx qdy qth qvo qvi = (if qdx = 10002 then 1 else 0)"
  "get_time_elapse_mat demo_split = get_time_elapse_mat demo"
  "matmul demo_split = matmul demo"
  "pos demo_split = 1"
  "cmd_quantum_list demo_split = [0, 1, - 1, 2, - 2]"
  "X_OWN demo_split = 0" "Y_OWN demo_split = 1" "X_INT demo_split = 2" "NUM_VARS demo_split = 3"
  by (simp_all add: demo_split_def demo_fields)

lemma demo_split_qrange:
  "0 < a_mat (star s) \<Longrightarrow> b_vec (star s) = 0 \<Longrightarrow>
   is_float64 (a_mat (star s) * fst (box (star s))) \<Longrightarrow>
   is_float64 (a_mat (star s) * snd (box (star s))) \<Longrightarrow>
   get_dx_dy_qrange demo_split s =
     Inr ((\<lfloor>a_mat (star s) * fst (box (star s))\<rfloor>, \<lceil>a_mat (star s) * snd (box (star s))\<rceil>), (0, 0))"
  by (simp add: get_dx_dy_qrange_def demo_split_fields demo_fields dot_def Let_def
        numeral_3_eq_3 zero_le_mult_iff is_float64_def)

lemma demo_split_backstep:
  "backstep demo_split False c (demo_state 1 lo hi [0]) = Inr (demo_state (1 / 2) lo hi [0])"
  by (simp add: backstep_def demo_split_fields demo_fields demo_state_def neg_index_def)

lemma demo_split_cells:
  "sampled_cells demo_split (9999, 10003) (0, 0) =
     [(9999, 0), (10000, 0), (10001, 0), (10002, 0), (10003, 0)]"
  by (simp add: sampled_cells_def demo_split_fields demo_fields upto_rec1)

lemma demo_split_policy:
  "spec_policy demo_split (demo_state (1 / 2) 19999 20005 [0]) (9999, 10003) (0, 0) c =
     demo_split_preds c"
  by (simp add: spec_policy_def demo_split_cells cell_matches_def feasible_cell_def
      demo_split_fields demo_fields demo_state_def restricted_def Let_def demo_split_preds_def)

lemma demo_split_get_predecessors:
  "get_predecessors demo_split (demo_state 1 19999 20005 [0]) 1 =
     Inr (with_ids 1 (concat (map demo_split_preds [0, 1, 2, 3, 4])),
          demo_state (1 / 2) 19999 20005 [0], 16)"
proof -
  have q0: "get_dx_dy_qrange demo_split (demo_state 1 19999 20005 [0]) = Inr ((19999, 20005), (0, 0))"
    by (simp add: demo_split_qrange demo_state_def)
  have q: "get_dx_dy_qrange demo_split (demo_state (1 / 2) 19999 20005 [0]) = Inr ((9999, 10003), (0, 0))"
    by (simp add: demo_split_qrange demo_state_def)
  show ?thesis
    by (simp add: get_predecessors_eq q0 q demo_split_backstep spec_predecessors_def
          demo_split_policy upto_rec1 demo_split_preds_def)
qed

lemma demo_split_tests:
  "counterexample_test demo_split ((demo_state (1 / 2) 19999 20000 [0, 0])\<lparr>state_id := 1\<rparr>)
     = Inr False"
  "counterexample_test demo_split ((demo_state (1 / 2) 20000 20002 [0, 0])\<lparr>state_id := 2\<rparr>)
     = Inr True"
  by (simp_all add: counterexample_test_def demo_split_fields demo_fields demo_state_def
        neg_index_def coord_def fsub_def Let_def is_float64_round64)

lemma demo_split_spec_counterexample:
  "\<not> spec_counterexample demo_split ((demo_state (1 / 2) 19999 20000 [0, 0])\<lparr>state_id := 1\<rparr>)"
  "spec_counterexample demo_split ((demo_state (1 / 2) 20000 20002 [0, 0])\<lparr>state_id := 2\<rparr>)"
  using demo_split_tests [THEN counterexample_test_iff] by simp_all

lemma demo_split_pass:
  "spec_pass demo_split demo_frontier (with_ids 1 (concat (map demo_split_preds [0, 1, 2, 3, 4])))
     (demo_state (1 / 2) 19999 20005 [0]) 16 = demo_found"
  by (simp add: spec_pass_def demo_frontier_def demo_found_def demo_split_preds_def
        demo_split_spec_counterexample)

lemma demo_split_range_points: "range_points_ok demo_split"
  by (simp add: range_points_ok_def demo_split_fields demo_fields)

lemma demo_split_while_body: "while_body demo_split demo_frontier = Inr demo_found"
proof -
  have g: "get_predecessors demo_split (last (work demo_frontier)) (next_id demo_frontier) =
       Inr (with_ids 1 (concat (map demo_split_preds [0, 1, 2, 3, 4])),
            demo_state (1 / 2) 19999 20005 [0], 16)"
    by (simp add: demo_frontier_def demo_split_get_predecessors)
  have w: "domain_witness (last (work demo_frontier)) \<noteq> None"
    by (simp add: demo_frontier_def demo_state_def)
  from while_body_pass [OF g get_predecessors_tests_defined [OF g w demo_split_range_points]]
  show ?thesis
    unfolding demo_split_pass .
qed

lemma demo_State_init:
  "State_init demo 0 10 2 7 \<lparr>box = (3, 5), a_mat = 1, b_vec = 0\<rparr> 0 = Inr (demo_state 1 3 5 [0], 1)"
  by (simp add: State_init_def assign_state_id_def demo_fields demo_state_def)

lemma demo_copy:
  "copy (demo_state 1 3 5 [0]) None None 5 = Inr ((demo_state 1 3 5 [0])\<lparr>state_id := 5\<rparr>, 6)"
  by (simp add: copy_def assign_state_id_def)




lemma demo_initial_cells: "sampled_cells demo (0, 2) (0, 0) = [(1, 0), (2, 0)]"
  by (simp add: sampled_cells_def demo_fields upto_rec1)

lemma demo_initial_policy:
  "concat (map (spec_policy demo (demo_state (1 / 2) 1 3 [0]) (0, 2) (0, 0)) [0 .. 4]) =
     [demo_state (1 / 2) 1 3 [0, 0], demo_state (1 / 2) 1 3 [0, 1]]"
  by (simp add: spec_policy_def demo_initial_cells cell_matches_def feasible_cell_def
      demo_fields demo_state_def unrestricted_def restricted_def upto_rec1 Let_def)

lemma demo_initial_predecessors:
  "get_predecessors demo (demo_state 1 1 3 [0]) 0 =
     Inr ([(demo_state (1 / 2) 1 3 [0, 0])\<lparr>state_id := 0\<rparr>,
           (demo_state (1 / 2) 1 3 [0, 1])\<lparr>state_id := 1\<rparr>],
          demo_state (1 / 2) 1 3 [0], 2)"
proof -
  have q0: "get_dx_dy_qrange demo (demo_state 1 1 3 [0]) = Inr ((1, 3), (0, 0))"
    by (simp add: demo_qrange demo_state_def)
  have q: "get_dx_dy_qrange demo (demo_state (1 / 2) 1 3 [0]) = Inr ((0, 2), (0, 0))"
    by (simp add: demo_qrange demo_state_def)
  show ?thesis
    by (simp add: get_predecessors_eq q0 q demo_backstep spec_predecessors_def demo_initial_policy)
qed

text \<open>
  The instance is a geometry on the sets \<open>demo_region\<close>: a polytope is feasible exactly
  when it has a point, its witness is one of its points, and the restriction to a cell
  keeps the points of the closed cell.
\<close>

lemma demo_feasible_iff: "(is_feasible demo st \<noteq> None) = (demo_region st \<noteq> {})"
proof
  assume "is_feasible demo st \<noteq> None"
  then have "fst (box st) \<le> snd (box st)" by (simp add: demo_fields split: if_splits)
  then have "[0, 0, a_mat st * fst (box st) + b_vec st] \<in> demo_region st"
    by (auto simp add: demo_region_def)
  then show "demo_region st \<noteq> {}" by blast
next
  assume "demo_region st \<noteq> {}"
  then obtain t where "fst (box st) \<le> t" "t \<le> snd (box st)"
    by (auto simp add: demo_region_def)
  then have "fst (box st) \<le> snd (box st)" by linarith
  then show "is_feasible demo st \<noteq> None" by (simp add: demo_fields)
qed

lemma demo_witness_in_region:
  "is_feasible demo st = Some w \<Longrightarrow> domain_to_range demo st w \<in> demo_region st"
  by (auto simp add: demo_fields demo_region_def split: if_splits
        intro!: exI [of _ "(fst (box st) + snd (box st)) / 2"])

lemma demo_make_qstar_region:
  assumes "0 < a_mat st"
  shows "demo_region (make_qstar demo st q) =
     {p \<in> demo_region st.
        of_int (fst q) \<le> dx_of demo p \<and> dx_of demo p \<le> of_int (fst q) + 1 \<and>
        of_int (snd q) \<le> dy_of demo p \<and> dy_of demo p \<le> of_int (snd q) + 1}"
proof (cases "snd q \<le> 0 \<and> 0 \<le> snd q + 1")
  case True
  then have y: "of_int (snd q) \<le> (0::real) \<and> (0::real) \<le> of_int (snd q) + 1"
    by linarith
  have k: "\<And>t. (max (fst (box st)) ((of_int (fst q) - b_vec st) / a_mat st) \<le> t \<and>
            t \<le> min (snd (box st)) ((of_int (fst q) + 1 - b_vec st) / a_mat st))
          = (fst (box st) \<le> t \<and> t \<le> snd (box st) \<and>
             of_int (fst q) \<le> a_mat st * t + b_vec st \<and> a_mat st * t + b_vec st \<le> of_int (fst q) + 1)"
    using assms by (auto simp add: pos_divide_le_eq pos_le_divide_eq algebra_simps)
  show ?thesis
  proof (intro set_eqI iffI)
    fix p assume "p \<in> demo_region (make_qstar demo st q)"
    with True obtain t where
      b: "max (fst (box st)) ((of_int (fst q) - b_vec st) / a_mat st) \<le> t \<and>
            t \<le> min (snd (box st)) ((of_int (fst q) + 1 - b_vec st) / a_mat st)"
      and p: "p = [0, 0, a_mat st * t + b_vec st]"
      by (auto simp add: demo_region_def demo_fields)
    from b have "fst (box st) \<le> t \<and> t \<le> snd (box st) \<and>
             of_int (fst q) \<le> a_mat st * t + b_vec st \<and> a_mat st * t + b_vec st \<le> of_int (fst q) + 1"
      by (simp only: k)
    with p y show "p \<in> {p \<in> demo_region st.
        of_int (fst q) \<le> dx_of demo p \<and> dx_of demo p \<le> of_int (fst q) + 1 \<and>
        of_int (snd q) \<le> dy_of demo p \<and> dy_of demo p \<le> of_int (snd q) + 1}"
      by (auto simp add: demo_region_def demo_fields dx_of_def dy_of_def)
  next
    fix p assume "p \<in> {p \<in> demo_region st.
        of_int (fst q) \<le> dx_of demo p \<and> dx_of demo p \<le> of_int (fst q) + 1 \<and>
        of_int (snd q) \<le> dy_of demo p \<and> dy_of demo p \<le> of_int (snd q) + 1}"
    then have m: "p \<in> demo_region st"
      and i: "of_int (fst q) \<le> dx_of demo p \<and> dx_of demo p \<le> of_int (fst q) + 1"
      by simp_all
    from m obtain t where t: "fst (box st) \<le> t \<and> t \<le> snd (box st)"
      and p: "p = [0, 0, a_mat st * t + b_vec st]"
      unfolding demo_region_def by blast
    from i p t have c: "fst (box st) \<le> t \<and> t \<le> snd (box st) \<and>
             of_int (fst q) \<le> a_mat st * t + b_vec st \<and> a_mat st * t + b_vec st \<le> of_int (fst q) + 1"
      by (simp add: dx_of_def demo_fields)
    from c have "max (fst (box st)) ((of_int (fst q) - b_vec st) / a_mat st) \<le> t \<and>
            t \<le> min (snd (box st)) ((of_int (fst q) + 1 - b_vec st) / a_mat st)"
      by (simp only: k)
    with True have "\<exists>t'. fst (box (make_qstar demo st q)) \<le> t' \<and> t' \<le> snd (box (make_qstar demo st q))
        \<and> p = [0, 0, a_mat (make_qstar demo st q) * t' + b_vec (make_qstar demo st q)]"
      by (intro exI [of _ t]) (simp add: demo_fields p)
    then show "p \<in> demo_region (make_qstar demo st q)"
      by (simp add: demo_region_def)
  qed
next
  case False
  then have "\<not> (of_int (snd q) \<le> (0::real) \<and> (0::real) \<le> of_int (snd q) + 1)"
    by linarith
  with False show ?thesis
    by (auto simp add: demo_region_def demo_fields dx_of_def dy_of_def)
qed

lemma demo_heap_ok: "heap_ok demo_heap"
  by (simp add: heap_ok_def demo_heap_def)

lemma demo_heap_ids: "ids_ok demo_heap"
  by (simp add: ids_ok_def demo_heap_def)

lemma demo_heap_state:
  "state_at demo_heap 0
     \<lparr>o_qtheta1 = 10, o_qv_own = 2, o_qv_int = 7, o_alpha_prev_list = 1,
      o_star = Some 2, o_domain_witness = Some 3, o_state_id = 0\<rparr>
     [0] \<lparr>box = (3, 5), a_mat = 1 / 2, b_vec = 0\<rparr> [4]"
  by (simp add: state_at_def demo_heap_def)



lemma round64_at_threshold: "round64 (100000000 + 1 / 2 ^ 40) = Float 100000000"
proof -
  have "nearest (100000000 + 1 / 2 ^ 40) = 100000000"
    by (subst nearest_eval [of 26]) (simp_all add: round_half_even_def Let_def power_int_minus)
  then show ?thesis by (simp add: round64_def overflow_bound_def)
qed

lemma demo_point_fields:
  "minimize_vec (demo_point p q) st v = p" "domain_to_range (demo_point p q) st d = p"
  "pos (demo_point p q) = q"
  "X_OWN (demo_point p q) = 0" "Y_OWN (demo_point p q) = 1" "X_INT (demo_point p q) = 2"
  "NUM_VARS (demo_point p q) = 3"
  by (simp_all add: demo_point_def demo_fields)




lemma demo_point_threshold:
  "counterexample_test (demo_point [0, 1 / 2 ^ 20, 10000] 1) (demo_state 1 0 1 [0, 0]) = Inr False"
proof -
  have "is_float64 (1 / 2 ^ 20)" "is_float64 (1 / 2 ^ 40)"
    using is_float64_divide_power [of 1 20] is_float64_divide_power [of 1 40] by simp_all
  then have r: "round64 (1 / 1048576) = Float (1 / 1048576)"
    "round64 (1 / 1099511627776) = Float (1 / 1099511627776)"
    by (simp_all add: is_float64_def)
  from r(1) have r': "round64 (- (1 / 1048576)) = Float (- (1 / 1048576))"
    by (simp add: round64_minus)
  have t: "round64 (109951162777600000001 / 1099511627776) = Float 100000000"
    using round64_at_threshold by simp
  show ?thesis
    using t r r'
    by (simp add: counterexample_test_def demo_point_fields demo_state_def neg_index_def
          coord_def fsub_def Let_def is_float64_round64)
qed






section \<open>The claims\<close>

subsection \<open>Claim C1\<close>

text \<open>
  Claim C1. For a state with a valid most recent command, \<open>get_predecessors\<close> steps the
  state backwards and, unless one of its two computations of the quantized range raises (a
  bound that is infinite or NaN), returns for the candidate commands 0 to 4 in this order
  what the four-case policy \<open>spec_policy\<close> gives on the cells of the stepped state: nothing when no
  sampled cell matches; the single unrestricted predecessor when every sampled cell matches,
  or when every mismatching cell has an infeasible restriction; otherwise one predecessor for
  every matching cell whose restriction is feasible, infeasible ones being dropped. Every
  predecessor carries the history of the receiver with the candidate appended, and the
  identifiers are consecutive from the class counter.
\<close>

theorem get_predecessors_policy:
  assumes "providers_ok P" and "alpha_prev_list s \<noteq> []"
    and "0 \<le> last (alpha_prev_list s)" and "last (alpha_prev_list s) \<le> 4"
  shows "\<exists>s1.
           backstep P False (- 1) s = Inr s1
         \<and> get_predecessors P s n =
             (case get_dx_dy_qrange P s of
                Inl e \<Rightarrow> Inl e
              | Inr unused \<Rightarrow>
                  (case get_dx_dy_qrange P s1 of
                     Inl e \<Rightarrow> Inl e
                   | Inr (dx_qrange, dy_qrange) \<Rightarrow>
                       Inr (with_ids n
                              (concat (map (spec_policy P s1 dx_qrange dy_qrange) [0 .. 4])),
                            s1,
                            n + int (length
                              (concat (map (spec_policy P s1 dx_qrange dy_qrange) [0 .. 4]))))))"
proof -
  from assms(1) have len: "length (cmd_quantum_list P) = 5"
    by (simp add: providers_ok_def)
  from backstep_backward_ok [OF len assms(2-4)] obtain s1 where
    b: "backstep P False (- 1) s = Inr s1" by blast
  have "get_predecessors P s n =
             (case get_dx_dy_qrange P s of
                Inl e \<Rightarrow> Inl e
              | Inr unused \<Rightarrow>
                  (case get_dx_dy_qrange P s1 of
                     Inl e \<Rightarrow> Inl e
                   | Inr (dx_qrange, dy_qrange) \<Rightarrow>
                       Inr (with_ids n
                              (concat (map (spec_policy P s1 dx_qrange dy_qrange) [0 .. 4])),
                            s1,
                            n + int (length
                              (concat (map (spec_policy P s1 dx_qrange dy_qrange) [0 .. 4]))))))"
    using b by (simp add: get_predecessors_eq spec_predecessors_def cong: sum.case_cong)
  with b show ?thesis by blast
qed

text \<open>
  The witness of C1 runs the instance on the segment from 3 to 5: after the step the
  distances lie between 3/2 and 5/2, in the cells 1 to 3. Candidate 0 matches everywhere
  (no split), candidates 1 and 2 are split, candidates 3 and 4 match nowhere.
\<close>

theorem get_predecessors_policy_witness:
  "providers_ok demo \<and> alpha_prev_list (demo_state 1 3 5 [0]) \<noteq> []
   \<and> 0 \<le> last (alpha_prev_list (demo_state 1 3 5 [0]))
   \<and> last (alpha_prev_list (demo_state 1 3 5 [0])) \<le> 4
   \<and> backstep demo False (- 1) (demo_state 1 3 5 [0]) = Inr (demo_state (1 / 2) 3 5 [0])
   \<and> get_dx_dy_qrange demo (demo_state 1 3 5 [0]) = Inr ((3, 5), (0, 0))
   \<and> get_dx_dy_qrange demo (demo_state (1 / 2) 3 5 [0]) = Inr ((1, 3), (0, 0))
   \<and> get_predecessors demo (demo_state 1 3 5 [0]) 5 =
       Inr ([(demo_state (1 / 2) 3 5 [0, 0])\<lparr>state_id := 5\<rparr>,
             (demo_state (1 / 2) 3 4 [0, 1])\<lparr>state_id := 6\<rparr>,
             (demo_state (1 / 2) 4 5 [0, 2])\<lparr>state_id := 7\<rparr>],
            demo_state (1 / 2) 3 5 [0], 8)"
proof -
  have h: "alpha_prev_list (demo_state 1 3 5 [0]) \<noteq> []"
    "0 \<le> last (alpha_prev_list (demo_state 1 3 5 [0]))"
    "last (alpha_prev_list (demo_state 1 3 5 [0])) \<le> 4"
    by (simp_all add: demo_state_def)
  have q0: "get_dx_dy_qrange demo (demo_state 1 3 5 [0]) = Inr ((3, 5), (0, 0))"
    by (simp add: demo_qrange demo_state_def)
  have q1: "get_dx_dy_qrange demo (demo_state (1 / 2) 3 5 [0]) = Inr ((1, 3), (0, 0))"
    by (simp add: demo_qrange demo_state_def)
  from get_predecessors_policy [OF providers_ok_demo h, of 5]
  obtain s1 where
    b: "backstep demo False (- 1) (demo_state 1 3 5 [0]) = Inr s1" and
    g: "get_predecessors demo (demo_state 1 3 5 [0]) 5 =
          (case get_dx_dy_qrange demo (demo_state 1 3 5 [0]) of
             Inl e \<Rightarrow> Inl e
           | Inr unused \<Rightarrow>
               (case get_dx_dy_qrange demo s1 of
                  Inl e \<Rightarrow> Inl e
                | Inr (dx_qrange, dy_qrange) \<Rightarrow>
                    Inr (with_ids 5
                           (concat (map (spec_policy demo s1 dx_qrange dy_qrange) [0 .. 4])),
                         s1,
                         5 + int (length
                           (concat (map (spec_policy demo s1 dx_qrange dy_qrange) [0 .. 4]))))))"
    by blast
  from b have s1: "s1 = demo_state (1 / 2) 3 5 [0]"
    by (simp add: demo_backstep)
  from g have "get_predecessors demo (demo_state 1 3 5 [0]) 5 =
       Inr ([(demo_state (1 / 2) 3 5 [0, 0])\<lparr>state_id := 5\<rparr>,
             (demo_state (1 / 2) 3 4 [0, 1])\<lparr>state_id := 6\<rparr>,
             (demo_state (1 / 2) 4 5 [0, 2])\<lparr>state_id := 7\<rparr>],
            demo_state (1 / 2) 3 5 [0], 8)"
    unfolding s1 q0 q1 by (simp add: demo_spec_policy)
  with h providers_ok_demo q0 q1 demo_backstep [of "- 1" 3 5] show ?thesis by simp
qed

subsection \<open>Claim C2\<close>



subsection \<open>Claim C3\<close>

text \<open>
  Claim C3, as amended. The cells flagged as initial are left out of the enumeration, and
  the decision function is never asked about them: changing it on the flagged cells, in any
  way, changes nothing of the outcome of \<open>get_predecessors\<close>. Every predecessor is either
  unrestricted, with the polytope and the witness of the stepped state, or restricted to a
  sampled cell, which is not flagged, with the witness of the restriction.
\<close>

theorem initial_cells_excluded:
  assumes g: "get_predecessors P s n = Inr (rv, s1, n')"
    and a: "\<forall>prev qdx qdy th vo vi. \<not> is_init_qx_qy P qdx qdy \<longrightarrow>
              g prev qdx qdy th vo vi = get_cmd P prev qdx qdy th vo vi"
  shows "get_predecessors (P\<lparr>get_cmd := g\<rparr>) s n = Inr (rv, s1, n')
       \<and> (\<exists>dx_qrange dy_qrange.
            get_dx_dy_qrange P s1 = Inr (dx_qrange, dy_qrange)
          \<and> list_all (\<lambda>q. \<not> is_init_qx_qy P (fst q) (snd q)) (sampled_cells P dx_qrange dy_qrange)
          \<and> list_all
              (\<lambda>p. (star p = star s1 \<and> domain_witness p = domain_witness s1)
                  \<or> (\<exists>q \<in> set (sampled_cells P dx_qrange dy_qrange).
                        \<not> is_init_qx_qy P (fst q) (snd q)
                      \<and> star p = make_qstar P (star s1) q
                      \<and> domain_witness p = is_feasible P (star p)
                      \<and> domain_witness p \<noteq> None)) rv)"
proof (intro conjI)
  from a have "get_predecessors (P\<lparr>get_cmd := g\<rparr>) s n = get_predecessors P s n"
    by (intro get_predecessors_get_cmd) blast
  with g show "get_predecessors (P\<lparr>get_cmd := g\<rparr>) s n = Inr (rv, s1, n')" by simp
next
  from g obtain dxr dyr where
    r: "get_dx_dy_qrange P s1 = Inr (dxr, dyr)" and
    rv: "rv = with_ids n (spec_predecessors P s1 dxr dyr)"
    by (auto simp add: get_predecessors_eq split: sum.splits prod.splits)
  have ni: "list_all (\<lambda>q. \<not> is_init_qx_qy P (fst q) (snd q)) (sampled_cells P dxr dyr)"
    by (rule sampled_cells_not_initial)
  have "list_all
          (\<lambda>p. (star p = star s1 \<and> domain_witness p = domain_witness s1)
              \<or> (\<exists>q \<in> set (sampled_cells P dxr dyr).
                    \<not> is_init_qx_qy P (fst q) (snd q)
                  \<and> star p = make_qstar P (star s1) q
                  \<and> domain_witness p = is_feasible P (star p)
                  \<and> domain_witness p \<noteq> None)) rv"
    unfolding list_all_iff
  proof
    fix p assume "p \<in> set rv"
    with rv obtain x k where x: "x \<in> set (spec_predecessors P s1 dxr dyr)"
      and p: "p = x\<lparr>state_id := k\<rparr>"
      by (auto dest: set_with_ids)
    from x obtain c where "x \<in> set (spec_policy P s1 dxr dyr c)"
      by (auto simp add: spec_predecessors_def)
    from spec_policy_stars [OF this] ni p
    show "(star p = star s1 \<and> domain_witness p = domain_witness s1)
              \<or> (\<exists>q \<in> set (sampled_cells P dxr dyr).
                    \<not> is_init_qx_qy P (fst q) (snd q)
                  \<and> star p = make_qstar P (star s1) q
                  \<and> domain_witness p = is_feasible P (star p)
                  \<and> domain_witness p \<noteq> None)"
      by (auto simp add: list_all_iff)
  qed
  with r ni show "\<exists>dx_qrange dy_qrange.
            get_dx_dy_qrange P s1 = Inr (dx_qrange, dy_qrange)
          \<and> list_all (\<lambda>q. \<not> is_init_qx_qy P (fst q) (snd q)) (sampled_cells P dx_qrange dy_qrange)
          \<and> list_all
              (\<lambda>p. (star p = star s1 \<and> domain_witness p = domain_witness s1)
                  \<or> (\<exists>q \<in> set (sampled_cells P dx_qrange dy_qrange).
                        \<not> is_init_qx_qy P (fst q) (snd q)
                      \<and> star p = make_qstar P (star s1) q
                      \<and> domain_witness p = is_feasible P (star p)
                      \<and> domain_witness p \<noteq> None)) rv"
    by blast
qed

text \<open>
  The claim C3 as it is written fails for the unrestricted predecessor, which carries the
  whole stepped polytope. On the instance, the stepped segment of the distances from 1/2
  to 3/2 meets the cells 0, 1 and 2; the cell 0 is initial and skipped, the candidate 0
  matches on the cells 1 and 2, and the predecessor emitted for it holds the point at the
  distance 3/5, which lies in the initial cell \<open>(0, 0)\<close>.
\<close>

theorem unrestricted_predecessor_meets_initial_cell:
  "get_predecessors demo (demo_state 1 1 3 [0]) 0 =
     Inr ([(demo_state (1 / 2) 1 3 [0, 0])\<lparr>state_id := 0\<rparr>,
           (demo_state (1 / 2) 1 3 [0, 1])\<lparr>state_id := 1\<rparr>],
          demo_state (1 / 2) 1 3 [0], 2)
   \<and> [0, 0, 3 / 5] \<in> demo_region (star ((demo_state (1 / 2) 1 3 [0, 0])\<lparr>state_id := 0\<rparr>))
   \<and> is_init_qx_qy demo \<lfloor>dx_of demo [0, 0, 3 / 5] / pos demo\<rfloor> \<lfloor>dy_of demo [0, 0, 3 / 5] / pos demo\<rfloor>"
proof -
  have "[0, 0, 3 / 5] \<in> demo_region (star ((demo_state (1 / 2) 1 3 [0, 0])\<lparr>state_id := 0\<rparr>))"
    by (simp add: demo_region_def demo_state_def) (rule exI [of _ "6 / 5"], simp)
  moreover have "is_init_qx_qy demo \<lfloor>dx_of demo [0, 0, 3 / 5] / pos demo\<rfloor>
      \<lfloor>dy_of demo [0, 0, 3 / 5] / pos demo\<rfloor>"
    by (simp add: demo_fields dx_of_def dy_of_def)
  ultimately show ?thesis using demo_initial_predecessors by blast
qed

text \<open>
  The witness of C3, on the same run: a decision function that answers 4 on the initial
  cell gives the same predecessors.
\<close>

theorem initial_cells_excluded_witness:
  "get_predecessors demo (demo_state 1 1 3 [0]) 0 =
     Inr ([(demo_state (1 / 2) 1 3 [0, 0])\<lparr>state_id := 0\<rparr>,
           (demo_state (1 / 2) 1 3 [0, 1])\<lparr>state_id := 1\<rparr>],
          demo_state (1 / 2) 1 3 [0], 2)
   \<and> get_predecessors
        (demo\<lparr>get_cmd := (\<lambda>prev qdx qdy th vo vi.
                  if qdx = 0 \<and> qdy = 0 then 4 else get_cmd demo prev qdx qdy th vo vi)\<rparr>)
        (demo_state 1 1 3 [0]) 0 =
     Inr ([(demo_state (1 / 2) 1 3 [0, 0])\<lparr>state_id := 0\<rparr>,
           (demo_state (1 / 2) 1 3 [0, 1])\<lparr>state_id := 1\<rparr>],
          demo_state (1 / 2) 1 3 [0], 2)
   \<and> get_dx_dy_qrange demo (demo_state (1 / 2) 1 3 [0]) = Inr ((0, 2), (0, 0))
   \<and> sampled_cells demo (0, 2) (0, 0) = [(1, 0), (2, 0)]"
proof -
  have a: "\<forall>prev qdx qdy th vo vi. \<not> is_init_qx_qy demo qdx qdy \<longrightarrow>
      (if qdx = 0 \<and> qdy = 0 then 4 else get_cmd demo prev qdx qdy th vo vi)
        = get_cmd demo prev qdx qdy th vo vi"
    by (simp add: demo_fields)
  have q: "get_dx_dy_qrange demo (demo_state (1 / 2) 1 3 [0]) = Inr ((0, 2), (0, 0))"
    by (simp add: demo_qrange demo_state_def)
  from initial_cells_excluded [OF demo_initial_predecessors a]
  have "get_predecessors
        (demo\<lparr>get_cmd := (\<lambda>prev qdx qdy th vo vi.
                  if qdx = 0 \<and> qdy = 0 then 4 else get_cmd demo prev qdx qdy th vo vi)\<rparr>)
        (demo_state 1 1 3 [0]) 0 =
     Inr ([(demo_state (1 / 2) 1 3 [0, 0])\<lparr>state_id := 0\<rparr>,
           (demo_state (1 / 2) 1 3 [0, 1])\<lparr>state_id := 1\<rparr>],
          demo_state (1 / 2) 1 3 [0], 2)"
    by blast
  with demo_initial_predecessors q demo_initial_cells show ?thesis by blast
qed

subsection \<open>Claim C4\<close>

text \<open>
  Claim C4. Two sequential runs of \<open>backreach_single\<close> on the same providers and the same
  parameters differ only in the value of the class counter \<^verbatim>\<open>State.next_state_id\<close> they
  start from (and in the measured time, which is not modelled). Whatever these values, and
  for every bound on the passes of the loop, both runs end the same way: both are still
  running, both fail with the same error, or both return the same \<open>num_popped\<close> and
  \<open>unique_paths\<close>.
\<close>

theorem sequential_runs_agree:
  "map_option (map_sum id (\<lambda>r. (num_popped r, unique_paths r))) (backreach_single fuel P arg n)
   = map_option (map_sum id (\<lambda>r. (num_popped r, unique_paths r))) (backreach_single fuel P arg m)"
proof (cases arg)
  case None
  then show ?thesis by (simp add: backreach_single_def)
next
  case (Some prm)
  obtain a0 x_own y_own theta1 v_own v_int where
    prm: "prm = (a0, x_own, y_own, theta1, v_own, v_int)"
    by (cases prm) auto
  obtain bx a b where ic: "init_to_constraints P x_own y_own v_own v_int theta1 = (bx, a, b)"
    by (cases "init_to_constraints P x_own y_own v_own v_int theta1") auto
  let ?st = "\<lparr>box = bx, a_mat = a, b_vec = b\<rparr>"
  note i = State_init_erase [of P a0 theta1 v_own v_int ?st n m]
  show ?thesis
  proof (cases "State_init P a0 theta1 v_own v_int ?st n")
    case (Inl e)
    with i have "State_init P a0 theta1 v_own v_int ?st m = Inl e"
      by (cases "State_init P a0 theta1 v_own v_int ?st m") simp_all
    with Inl show ?thesis by (simp add: backreach_single_def Some prm ic)
  next
    case (Inr r)
    obtain s k where r: "r = (s, k)" by (cases r) auto
    from i Inr r obtain s' k' where
      i': "State_init P a0 theta1 v_own v_int ?st m = Inr (s', k')" and e: "erase s = erase s'"
      by (cases "State_init P a0 theta1 v_own v_int ?st m") auto
    let ?a = "\<lparr>work = [s], popped = 0, found = None, deadends = {}, next_id = k\<rparr>"
    let ?b = "\<lparr>work = [s'], popped = 0, found = None, deadends = {}, next_id = k'\<rparr>"
    have ab: "abstract_search ?a = abstract_search ?b"
      using e by (simp add: abstract_search_def)
    note w = while_loop_erase [OF ab, of fuel P]
    show ?thesis
    proof (cases "while_loop fuel P ?a")
      case None
      with w have "while_loop fuel P ?b = None" by simp
      with None Inr r i' show ?thesis by (simp add: backreach_single_def Some prm ic)
    next
      case (Some res)
      with w obtain res' where w': "while_loop fuel P ?b = Some res'"
        and rr: "map_sum id abstract_search res = map_sum id abstract_search res'"
        by (cases "while_loop fuel P ?b") auto
      show ?thesis
      proof (cases res)
        case (Inl e)
        with rr have "res' = Inl e" by (cases res') simp_all
        with Inl Some w' Inr r i' \<open>arg = Some prm\<close> show ?thesis
          by (simp add: backreach_single_def prm ic)
      next
        case (Inr fin)
        with rr obtain fin' where f': "res' = Inr fin'"
          and a: "abstract_search fin = abstract_search fin'"
          by (cases res') simp_all
        from a have "popped fin = popped fin'" "deadends fin = deadends fin'"
          by (simp_all add: abstract_search_def)
        with Inr f' Some w' \<open>State_init P a0 theta1 v_own v_int ?st n = Inr r\<close> r i'
          \<open>arg = Some prm\<close> show ?thesis
          by (simp add: backreach_single_def prm ic)
      qed
    qed
  qed
qed

subsection \<open>Claim C5\<close>

text \<open>
  Claim C5, as amended. The constructor makes a history of one element, the command it is
  given, and does not check it: the history meets \<open>history_ok\<close> exactly when this command
  lies in 0..4. \<open>copy\<close> and the backward and forward step leave the history as it is;
  \<open>get_predecessors\<close> leaves the history of the receiver as it is and gives every
  predecessor this history with one command of 0..4 appended; nothing removes an element.
  Hence one pass of the search loop on a frontier of states meeting \<open>history_ok\<close> leaves
  such a frontier, and records such a state if any.
\<close>

theorem history_only_grows:
  "(State_init P a qth qvo qvi st n = Inr (s0, n0) \<longrightarrow>
      alpha_prev_list s0 = [a] \<and> (history_ok s0 \<longleftrightarrow> 0 \<le> a \<and> a \<le> 4))
   \<and> (copy s ns nw n = Inr (s', n') \<longrightarrow> alpha_prev_list s' = alpha_prev_list s)
   \<and> (backstep P f c s = Inr s1 \<longrightarrow> alpha_prev_list s1 = alpha_prev_list s)
   \<and> (get_predecessors P s n = Inr (rv, s2, n2) \<longrightarrow>
        alpha_prev_list s2 = alpha_prev_list s \<and>
        list_all (\<lambda>p. \<exists>c'. 0 \<le> c' \<and> c' \<le> 4 \<and> alpha_prev_list p = alpha_prev_list s @ [c']) rv)
   \<and> (list_all history_ok (work srch) \<and> work srch \<noteq> [] \<and> while_body P srch = Inr srch' \<longrightarrow>
        list_all history_ok (work srch') \<and> list_all history_ok (case found srch' of None \<Rightarrow> [] | Some p \<Rightarrow> [p]))"
proof (intro conjI impI)
  assume i: "State_init P a qth qvo qvi st n = Inr (s0, n0)"
  then show "alpha_prev_list s0 = [a]" by (rule State_init_history)
  then show "history_ok s0 \<longleftrightarrow> 0 \<le> a \<and> a \<le> 4" by (simp add: history_ok_def)
next
  assume "copy s ns nw n = Inr (s', n')"
  then show "alpha_prev_list s' = alpha_prev_list s" by (rule copy_history)
next
  assume "backstep P f c s = Inr s1"
  then show "alpha_prev_list s1 = alpha_prev_list s" by (rule backstep_history)
next
  assume g: "get_predecessors P s n = Inr (rv, s2, n2)"
  from get_predecessors_receiver [OF g] show "alpha_prev_list s2 = alpha_prev_list s"
    by (rule backstep_history)
  show "list_all (\<lambda>p. \<exists>c'. 0 \<le> c' \<and> c' \<le> 4 \<and> alpha_prev_list p = alpha_prev_list s @ [c']) rv"
    unfolding list_all_iff using get_predecessors_history [OF g] by blast
next
  assume a: "list_all history_ok (work srch) \<and> work srch \<noteq> [] \<and> while_body P srch = Inr srch'"
  then have w: "list_all history_ok (work srch') \<and> (\<forall>p. found srch' = Some p \<longrightarrow> history_ok p)"
    by (intro while_body_history) auto
  then show "list_all history_ok (work srch')" by simp
  from w show "list_all history_ok (case found srch' of None \<Rightarrow> [] | Some p \<Rightarrow> [p])"
    by (cases "found srch'") auto
qed

text \<open>
  The claim C5 as it is written fails on the constructor: given the command 7 and a feasible
  polytope it succeeds and the new state stores 7. (The next backward step rejects it.)
\<close>

theorem unchecked_initial_command:
  "State_init demo 7 10 2 7 \<lparr>box = (1, 2), a_mat = 1, b_vec = 0\<rparr> 0 =
     Inr (\<lparr>qtheta1 = 10, qv_own = 2, qv_int = 7, alpha_prev_list = [7],
           star = \<lparr>box = (1, 2), a_mat = 1, b_vec = 0\<rparr>,
           domain_witness = Some [3 / 2], state_id = 0\<rparr>, 1)
   \<and> \<not> list_all (\<lambda>c. 0 \<le> c \<and> c \<le> 4) [7::int]"
  by (simp add: State_init_def assign_state_id_def demo_fields)

text \<open>The witness of C5: every operation on the instance.\<close>

theorem history_only_grows_witness:
  "State_init demo 0 10 2 7 \<lparr>box = (3, 5), a_mat = 1, b_vec = 0\<rparr> 0 = Inr (demo_state 1 3 5 [0], 1)
   \<and> history_ok (demo_state 1 3 5 [0])
   \<and> copy (demo_state 1 3 5 [0]) None None 5 = Inr ((demo_state 1 3 5 [0])\<lparr>state_id := 5\<rparr>, 6)
   \<and> alpha_prev_list ((demo_state 1 3 5 [0])\<lparr>state_id := 5\<rparr>) = [0]
   \<and> backstep demo False (- 1) (demo_state 1 3 5 [0]) = Inr (demo_state (1 / 2) 3 5 [0])
   \<and> alpha_prev_list (demo_state (1 / 2) 3 5 [0]) = [0]
   \<and> get_predecessors demo (demo_state 1 3 5 [0]) 5 =
       Inr ([(demo_state (1 / 2) 3 5 [0, 0])\<lparr>state_id := 5\<rparr>,
             (demo_state (1 / 2) 3 4 [0, 1])\<lparr>state_id := 6\<rparr>,
             (demo_state (1 / 2) 4 5 [0, 2])\<lparr>state_id := 7\<rparr>],
            demo_state (1 / 2) 3 5 [0], 8)
   \<and> map alpha_prev_list [(demo_state (1 / 2) 3 5 [0, 0])\<lparr>state_id := 5\<rparr>,
             (demo_state (1 / 2) 3 4 [0, 1])\<lparr>state_id := 6\<rparr>,
             (demo_state (1 / 2) 4 5 [0, 2])\<lparr>state_id := 7\<rparr>] = [[0, 0], [0, 1], [0, 2]]
   \<and> list_all history_ok (work demo_frontier) \<and> work demo_frontier \<noteq> []
   \<and> while_body demo_split demo_frontier = Inr demo_found
   \<and> list_all history_ok (work demo_found)
   \<and> list_all history_ok (case found demo_found of None \<Rightarrow> [] | Some p \<Rightarrow> [p])"
proof -
  have fr: "list_all history_ok (work demo_frontier) \<and> work demo_frontier \<noteq> []
      \<and> while_body demo_split demo_frontier = Inr demo_found"
    by (simp add: demo_split_while_body) (simp add: demo_frontier_def history_ok_def demo_state_def)
  note t = history_only_grows [where P = demo and a = 0 and qth = 10 and qvo = 2 and qvi = 7
      and st = "\<lparr>box = (3, 5), a_mat = 1, b_vec = 0\<rparr>" and n = 0
      and ?s0.0 = "demo_state 1 3 5 [0]" and ?n0.0 = 1]
  note u = history_only_grows [where P = demo_split and srch = demo_frontier and srch' = demo_found]
  from t have a: "history_ok (demo_state 1 3 5 [0])"
    by (simp add: demo_State_init)
  from u fr have b: "list_all history_ok (work demo_found)
      \<and> list_all history_ok (case found demo_found of None \<Rightarrow> [] | Some p \<Rightarrow> [p])"
    by blast
  have c: "alpha_prev_list ((demo_state 1 3 5 [0])\<lparr>state_id := 5\<rparr>) = [0]"
    "alpha_prev_list (demo_state (1 / 2) 3 5 [0]) = [0]"
    "map alpha_prev_list [(demo_state (1 / 2) 3 5 [0, 0])\<lparr>state_id := 5\<rparr>,
             (demo_state (1 / 2) 3 4 [0, 1])\<lparr>state_id := 6\<rparr>,
             (demo_state (1 / 2) 4 5 [0, 2])\<lparr>state_id := 7\<rparr>] = [[0, 0], [0, 1], [0, 2]]"
    by (simp_all add: demo_state_def)
  from a b c fr demo_State_init demo_copy demo_backstep [of "- 1" 3 5] demo_get_predecessors
  show ?thesis by blast
qed

subsection \<open>Claim C6\<close>

text \<open>
  Claim C6. The constructor asks the polytope for a witness: without one it fails with an
  assertion error, which \<open>backreach_single\<close>, its only caller, does not handle, so
  that the search is aborted; with one it succeeds and stores this witness.
\<close>

theorem State_init_feasibility:
  "State_init P alpha_prev qth qvo qvi st n =
     (case is_feasible P st of
        None \<Rightarrow> Inl AssertionError
      | Some w \<Rightarrow>
          Inr (\<lparr>qtheta1 = qth, qv_own = qvo, qv_int = qvi, alpha_prev_list = [alpha_prev],
                star = st, domain_witness = Some w, state_id = n\<rparr>, n + 1))
   \<and> (is_feasible P \<lparr>box = fst (init_to_constraints P x_own y_own v_own v_int theta1),
                      a_mat = fst (snd (init_to_constraints P x_own y_own v_own v_int theta1)),
                      b_vec = snd (snd (init_to_constraints P x_own y_own v_own v_int theta1))\<rparr> = None
        \<longrightarrow> backreach_single fuel P (Some (init_alpha_prev, x_own, y_own, theta1, v_own, v_int)) n
              = Some (Inl AssertionError))"
  by (simp add: State_init_def assign_state_id_def backreach_single_def Let_def
        split: option.splits prod.splits)

text \<open>
  The witness of C6: the interval from 2 to 1 gives an infeasible initial polytope and
  the search fails; on the segment from 1 to 2 the constructor stores the witness 3/2.
\<close>

theorem State_init_feasibility_witness:
  "is_feasible demo \<lparr>box = fst (init_to_constraints demo (2, 1) (0, 0) 2 7 10),
                      a_mat = fst (snd (init_to_constraints demo (2, 1) (0, 0) 2 7 10)),
                      b_vec = snd (snd (init_to_constraints demo (2, 1) (0, 0) 2 7 10))\<rparr> = None
   \<and> backreach_single 3 demo (Some (0, (2, 1), (0, 0), 10, 2, 7)) 0 = Some (Inl AssertionError)
   \<and> State_init demo 0 10 2 7 \<lparr>box = (1, 2), a_mat = 1, b_vec = 0\<rparr> 0 =
       Inr (\<lparr>qtheta1 = 10, qv_own = 2, qv_int = 7, alpha_prev_list = [0],
             star = \<lparr>box = (1, 2), a_mat = 1, b_vec = 0\<rparr>,
             domain_witness = Some [3 / 2], state_id = 0\<rparr>, 1)"
  using State_init_feasibility [of demo 0 10 2 7 "\<lparr>box = (1, 2), a_mat = 1, b_vec = 0\<rparr>" 0
          "(2, 1)" "(0, 0)" 2 7 10 3 0]
  by (simp add: demo_fields)

subsection \<open>Claim C7\<close>

text \<open>
  Claim C7. With the five-entry table of heading deltas, the backward step of a state
  whose most recent command \<open>c\<close> is in 0..4 multiplies \<open>a_mat\<close> and \<open>b_vec\<close> by the
  one-step matrix of \<open>c\<close> for the time step \<open>-1\<close> and subtracts the delta of index \<open>c\<close> from
  the heading level; the forward variant takes the supplied command, the time step \<open>1\<close>, and
  adds the delta; a command outside 0..4 fails the assertion in both.
\<close>

theorem backstep_transform:
  assumes "length (cmd_quantum_list P) = 5" and "alpha_prev_list s \<noteq> []"
  shows "backstep P False fa s =
          (let c = last (alpha_prev_list s) in
           if 0 \<le> c \<and> c \<le> 4
           then Inr (s\<lparr>star := (star s)\<lparr>
                          a_mat := matmul P (get_time_elapse_mat P c (- 1)) (a_mat (star s)),
                          b_vec := matmul P (get_time_elapse_mat P c (- 1)) (b_vec (star s))\<rparr>,
                        qtheta1 := qtheta1 s - cmd_quantum_list P ! nat c\<rparr>)
           else Inl AssertionError)
       \<and> backstep P True c' s =
          (if 0 \<le> c' \<and> c' \<le> 4
           then Inr (s\<lparr>star := (star s)\<lparr>
                          a_mat := matmul P (get_time_elapse_mat P c' 1) (a_mat (star s)),
                          b_vec := matmul P (get_time_elapse_mat P c' 1) (b_vec (star s))\<rparr>,
                        qtheta1 := qtheta1 s + cmd_quantum_list P ! nat c'\<rparr>)
           else Inl AssertionError)"
  using assms by (auto simp add: backstep_def neg_index_last Let_def)

text \<open>The witness of C7: command 3 has the delta 2; the commands 5 and 7 are rejected.\<close>

theorem backstep_transform_witness:
  "length (cmd_quantum_list demo) = 5 \<and> alpha_prev_list (demo_state 1 3 5 [0, 3]) \<noteq> []
   \<and> backstep demo False (- 1) (demo_state 1 3 5 [0, 3]) =
       Inr ((demo_state (1 / 2) 3 5 [0, 3])\<lparr>qtheta1 := 8\<rparr>)
   \<and> backstep demo True 3 (demo_state 1 3 5 [0, 3]) =
       Inr ((demo_state 2 3 5 [0, 3])\<lparr>qtheta1 := 12\<rparr>)
   \<and> backstep demo True 5 (demo_state 1 3 5 [0, 3]) = Inl AssertionError
   \<and> backstep demo False (- 1) (demo_state 1 3 5 [0, 7]) = Inl AssertionError"
  using backstep_transform [of demo "demo_state 1 3 5 [0, 3]" "- 1" 3]
    backstep_transform [of demo "demo_state 1 3 5 [0, 3]" "- 1" 5]
    backstep_transform [of demo "demo_state 1 3 5 [0, 7]" "- 1" 5]
  by (simp add: demo_fields demo_state_def)

subsection \<open>Claim C8\<close>



subsection \<open>Claim C9\<close>

text \<open>
  Claim C9. Take a store whose objects lie below the next address and whose \<^verbatim>\<open>State\<close>
  objects have identifiers below the class counter (so it is in the empty store, and the
  constructor, \<open>copy\<close> and \<^verbatim>\<open>deepcopy\<close> keep it so), and in it a \<^verbatim>\<open>State\<close> object with its
  command list, polytope and witness. A call of \<open>copy\<close> that its assertion admits, with a
  replacement polytope and its witness or with no replacement polytope, returns a new
  object. Its identifier is the value of the class counter, which is incremented: no
  \<^verbatim>\<open>State\<close> of the store has it, before the call or after it. The new object has the three
  levels of the source and a command list that is a new object of the same value. With a
  replacement polytope and witness these two references become its polytope and witness;
  with no replacement polytope its polytope and its witness are new objects with the values
  of the source's (a witness supplied alone is ignored). Every object of the store before
  the call is unchanged after it, so the source keeps its polytope, witness, command
  history and levels.
\<close>

theorem heap_copy_independent:
  assumes ok: "heap_ok h" and ids: "ids_ok h" and s: "state_at h self so hist st w"
    and guard: "new_star \<noteq> None \<longrightarrow> new_domain_witness \<noteq> None"
  shows "\<exists>rv h' ro.
           heap_copy h self new_star new_domain_witness = Inr (rv, h')
         \<and> objs h rv = None \<and> objs h' rv = Some (StateObj ro)
         \<and> o_state_id ro = class_next_state_id h
         \<and> (\<forall>a so'. objs h a = Some (StateObj so') \<longrightarrow> o_state_id so' \<noteq> o_state_id ro)
         \<and> (\<forall>a so'. a \<noteq> rv \<longrightarrow> objs h' a = Some (StateObj so') \<longrightarrow>
                o_state_id so' \<noteq> o_state_id ro)
         \<and> class_next_state_id h' = class_next_state_id h + 1
         \<and> heap_ok h' \<and> ids_ok h'
         \<and> o_qtheta1 ro = o_qtheta1 so \<and> o_qv_own ro = o_qv_own so
         \<and> o_qv_int ro = o_qv_int so
         \<and> objs h (o_alpha_prev_list ro) = None
         \<and> objs h' (o_alpha_prev_list ro) = Some (ListObj hist)
         \<and> (case new_star of
               Some a \<Rightarrow> o_star ro = Some a \<and> o_domain_witness ro = new_domain_witness
             | None \<Rightarrow>
                 (\<exists>sa wa. o_star ro = Some sa \<and> objs h sa = None
                       \<and> objs h' sa = Some (StarObj st)
                       \<and> o_domain_witness ro = Some wa \<and> objs h wa = None
                       \<and> objs h' wa = Some (ArrayObj w)))
         \<and> (\<forall>a. objs h a \<noteq> None \<longrightarrow> objs h' a = objs h a)
         \<and> state_at h' self so hist st w"
proof -
  have fresh: "objs h (next_addr h) = None" "objs h (Suc (next_addr h)) = None"
    "objs h (Suc (Suc (next_addr h))) = None" "objs h (next_addr h + 3) = None"
    using ok by (simp_all add: heap_ok_def)
  have old: "\<And>a. objs h a \<noteq> None \<Longrightarrow> a < next_addr h"
    using ok by (auto dest: heap_ok_lt)
  have keep: "\<And>h'. \<forall>a. a < next_addr h \<longrightarrow> objs h' a = objs h a \<Longrightarrow> state_at h' self so hist st w"
    using s old by (auto simp add: state_at_def split: option.splits)
  have below: "\<And>a so'. objs h a = Some (StateObj so') \<Longrightarrow> o_state_id so' < class_next_state_id h"
    using ids by (auto simp add: ids_ok_def)
  have idf: "\<forall>a so'. objs h a = Some (StateObj so') \<longrightarrow> o_state_id so' \<noteq> class_next_state_id h"
    using below by fastforce
  have rest: "(\<forall>a so'. a \<noteq> next_addr h \<longrightarrow> objs h' a = Some (StateObj so') \<longrightarrow>
                  o_state_id so' \<noteq> class_next_state_id h) \<and> ids_ok h'"
    if new: "\<forall>a so'. objs h' a = Some (StateObj so') \<longrightarrow>
              a = next_addr h \<or> objs h a = Some (StateObj so')"
      and o: "objs h' (next_addr h) = Some (StateObj ro)"
        "o_state_id ro = class_next_state_id h"
      and n: "class_next_state_id h' = class_next_state_id h + 1"
    for h' :: "('a, 'b) heap" and ro
  proof
    show "\<forall>a so'. a \<noteq> next_addr h \<longrightarrow> objs h' a = Some (StateObj so') \<longrightarrow>
                  o_state_id so' \<noteq> class_next_state_id h"
      using new idf by blast
    show "ids_ok h'"
      unfolding ids_ok_def
    proof (intro allI impI)
      fix a so' assume a: "objs h' a = Some (StateObj so')"
      with new have "a = next_addr h \<or> objs h a = Some (StateObj so')" by blast
      then show "o_state_id so' < class_next_state_id h'"
      proof
        assume "a = next_addr h"
        with a o n show ?thesis by simp
      next
        assume "objs h a = Some (StateObj so')"
        from below [OF this] n show ?thesis by simp
      qed
    qed
  qed
  show ?thesis
  proof (cases new_star)
    case None
    from heap_copy_clone [OF ok s, of new_domain_witness] obtain h' where
      c: "heap_copy h self None new_domain_witness = Inr (next_addr h, h')"
      and o: "objs h' (next_addr h) =
           Some (StateObj (so\<lparr>o_alpha_prev_list := next_addr h + 1,
                               o_star := Some (next_addr h + 2),
                               o_domain_witness := Some (next_addr h + 3),
                               o_state_id := class_next_state_id h\<rparr>))"
      and r: "objs h' (next_addr h + 1) = Some (ListObj hist)"
        "objs h' (next_addr h + 2) = Some (StarObj st)"
        "objs h' (next_addr h + 3) = Some (ArrayObj w)"
      and f: "\<forall>a. a < next_addr h \<longrightarrow> objs h' a = objs h a"
      and new: "\<forall>a so'. objs h' a = Some (StateObj so') \<longrightarrow>
              a = next_addr h \<or> objs h a = Some (StateObj so')"
      and n: "class_next_state_id h' = class_next_state_id h + 1"
      and ok': "heap_ok h'"
      by blast
    have "\<forall>a. objs h a \<noteq> None \<longrightarrow> objs h' a = objs h a"
      using f old by blast
    with c o r n ok' fresh keep [OF f] None idf rest [OF new o _ n] show ?thesis
      by (simp del: not_None_eq)
  next
    case (Some a)
    with guard obtain b where b: "new_domain_witness = Some b" by auto
    from heap_copy_replace [OF ok s, of a b] obtain h' where
      c: "heap_copy h self (Some a) (Some b) = Inr (next_addr h, h')"
      and o: "objs h' (next_addr h) =
           Some (StateObj (so\<lparr>o_alpha_prev_list := next_addr h + 1,
                               o_star := Some a,
                               o_domain_witness := Some b,
                               o_state_id := class_next_state_id h\<rparr>))"
      and r: "objs h' (next_addr h + 1) = Some (ListObj hist)"
      and f: "\<forall>a. a < next_addr h \<longrightarrow> objs h' a = objs h a"
      and new: "\<forall>a so'. objs h' a = Some (StateObj so') \<longrightarrow>
              a = next_addr h \<or> objs h a = Some (StateObj so')"
      and n: "class_next_state_id h' = class_next_state_id h + 1"
      and ok': "heap_ok h'"
      by blast
    have "\<forall>a. objs h a \<noteq> None \<longrightarrow> objs h' a = objs h a"
      using f old by blast
    with c o r n ok' fresh keep [OF f] Some b idf rest [OF new o _ n] show ?thesis
      by (simp del: not_None_eq)
  qed
qed

text \<open>
  The witness of C9: the clone takes the addresses 6 to 9, the copy with the replacements
  4 and 5 refers to them, both have the identifier 1 where the source has 0, and the source
  at the address 0 is as before in both stores.
\<close>

theorem heap_copy_independent_witness:
  "heap_ok demo_heap \<and> ids_ok demo_heap
   \<and> state_at demo_heap 0
       \<lparr>o_qtheta1 = 10, o_qv_own = 2, o_qv_int = 7, o_alpha_prev_list = 1,
        o_star = Some 2, o_domain_witness = Some 3, o_state_id = 0\<rparr>
       [0] \<lparr>box = (3, 5), a_mat = 1 / 2, b_vec = 0\<rparr> [4]
   \<and> (\<exists>h'. heap_copy demo_heap 0 None None = Inr (6, h')
          \<and> objs h' 6 = Some (StateObj \<lparr>o_qtheta1 = 10, o_qv_own = 2, o_qv_int = 7,
                 o_alpha_prev_list = 7, o_star = Some 8, o_domain_witness = Some 9, o_state_id = 1\<rparr>)
          \<and> objs h' 7 = Some (ListObj [0])
          \<and> objs h' 8 = Some (StarObj \<lparr>box = (3, 5), a_mat = 1 / 2, b_vec = 0\<rparr>)
          \<and> objs h' 9 = Some (ArrayObj [4])
          \<and> class_next_state_id h' = 2 \<and> ids_ok h'
          \<and> state_at h' 0
               \<lparr>o_qtheta1 = 10, o_qv_own = 2, o_qv_int = 7, o_alpha_prev_list = 1,
                o_star = Some 2, o_domain_witness = Some 3, o_state_id = 0\<rparr>
               [0] \<lparr>box = (3, 5), a_mat = 1 / 2, b_vec = 0\<rparr> [4])
   \<and> (\<exists>h'. heap_copy demo_heap 0 (Some 4) (Some 5) = Inr (6, h')
          \<and> objs h' 6 = Some (StateObj \<lparr>o_qtheta1 = 10, o_qv_own = 2, o_qv_int = 7,
                 o_alpha_prev_list = 7, o_star = Some 4, o_domain_witness = Some 5, o_state_id = 1\<rparr>)
          \<and> objs h' 7 = Some (ListObj [0])
          \<and> class_next_state_id h' = 2 \<and> ids_ok h'
          \<and> state_at h' 0
               \<lparr>o_qtheta1 = 10, o_qv_own = 2, o_qv_int = 7, o_alpha_prev_list = 1,
                o_star = Some 2, o_domain_witness = Some 3, o_state_id = 0\<rparr>
               [0] \<lparr>box = (3, 5), a_mat = 1 / 2, b_vec = 0\<rparr> [4])"
proof -
  have g1: "(None :: addr option) \<noteq> None \<longrightarrow> (None :: addr option) \<noteq> None" by simp
  have g2: "Some (4::addr) \<noteq> None \<longrightarrow> Some (5::addr) \<noteq> None" by simp
  note t1 = heap_copy_independent [OF demo_heap_ok demo_heap_ids demo_heap_state g1]
  note t2 = heap_copy_independent [OF demo_heap_ok demo_heap_ids demo_heap_state g2]
  have n: "class_next_state_id demo_heap = 1" by (simp add: demo_heap_def)
  from heap_copy_clone [OF demo_heap_ok demo_heap_state, of None] obtain h1 where
    c1: "heap_copy demo_heap 0 None None = Inr (6, h1)"
    and o1: "objs h1 6 = Some (StateObj \<lparr>o_qtheta1 = 10, o_qv_own = 2, o_qv_int = 7,
                 o_alpha_prev_list = 7, o_star = Some 8, o_domain_witness = Some 9, o_state_id = 1\<rparr>)"
      "objs h1 7 = Some (ListObj [0])"
      "objs h1 8 = Some (StarObj \<lparr>box = (3, 5), a_mat = 1 / 2, b_vec = 0\<rparr>)"
      "objs h1 9 = Some (ArrayObj [4])"
    by (auto simp add: demo_heap_def)
  from heap_copy_replace [OF demo_heap_ok demo_heap_state, of 4 5] obtain h2 where
    c2: "heap_copy demo_heap 0 (Some 4) (Some 5) = Inr (6, h2)"
    and o2: "objs h2 6 = Some (StateObj \<lparr>o_qtheta1 = 10, o_qv_own = 2, o_qv_int = 7,
                 o_alpha_prev_list = 7, o_star = Some 4, o_domain_witness = Some 5, o_state_id = 1\<rparr>)"
      "objs h2 7 = Some (ListObj [0])"
    by (auto simp add: demo_heap_def)
  from t1 c1 n have s1: "state_at h1 0
               \<lparr>o_qtheta1 = 10, o_qv_own = 2, o_qv_int = 7, o_alpha_prev_list = 1,
                o_star = Some 2, o_domain_witness = Some 3, o_state_id = 0\<rparr>
               [0] \<lparr>box = (3, 5), a_mat = 1 / 2, b_vec = 0\<rparr> [4]"
    and i1: "class_next_state_id h1 = 2" "ids_ok h1"
    by auto
  from t2 c2 n have s2: "state_at h2 0
               \<lparr>o_qtheta1 = 10, o_qv_own = 2, o_qv_int = 7, o_alpha_prev_list = 1,
                o_star = Some 2, o_domain_witness = Some 3, o_state_id = 0\<rparr>
               [0] \<lparr>box = (3, 5), a_mat = 1 / 2, b_vec = 0\<rparr> [4]"
    and i2: "class_next_state_id h2 = 2" "ids_ok h2"
    by auto
  from c1 o1 s1 i1 c2 o2 s2 i2 demo_heap_ok demo_heap_ids demo_heap_state show ?thesis by blast
qed

subsection \<open>Claim C10\<close>

text \<open>
  Claim C10. Every predecessor returned by \<open>get_predecessors\<close> has a command history
  exactly one element longer than the history of the receiver when the call was made, hence
  of at least two elements, so that the read of the second-to-last command made by the
  driver, \<^verbatim>\<open>p.alpha_prev_list[-2]\<close>, is in bounds: it yields the last command of the receiver.
\<close>

theorem predecessor_history_length:
  assumes "get_predecessors P s n = Inr (rv, s1, n')" and "p \<in> set rv"
  shows "length (alpha_prev_list p) = length (alpha_prev_list s) + 1
       \<and> 2 \<le> length (alpha_prev_list p)
       \<and> neg_index (alpha_prev_list p) 2 = Inr (last (alpha_prev_list s))"
proof -
  from get_predecessors_history [OF assms] obtain c where
    ne: "alpha_prev_list s \<noteq> []" and h: "alpha_prev_list p = alpha_prev_list s @ [c]"
    by blast
  from ne obtain ys y where ys: "alpha_prev_list s = ys @ [y]"
    by (cases "alpha_prev_list s" rule: rev_cases) auto
  show ?thesis
    using h ys neg_index_second [of ys y c] by simp
qed

text \<open>The witness of C10, on the run of the witness of C1.\<close>

theorem predecessor_history_length_witness:
  "get_predecessors demo (demo_state 1 3 5 [0]) 5 =
     Inr ([(demo_state (1 / 2) 3 5 [0, 0])\<lparr>state_id := 5\<rparr>,
           (demo_state (1 / 2) 3 4 [0, 1])\<lparr>state_id := 6\<rparr>,
           (demo_state (1 / 2) 4 5 [0, 2])\<lparr>state_id := 7\<rparr>],
          demo_state (1 / 2) 3 5 [0], 8)
   \<and> length (alpha_prev_list ((demo_state (1 / 2) 3 4 [0, 1])\<lparr>state_id := 6\<rparr>)) = 2
   \<and> neg_index (alpha_prev_list ((demo_state (1 / 2) 3 4 [0, 1])\<lparr>state_id := 6\<rparr>)) 2 = Inr 0"
proof -
  have "length (alpha_prev_list ((demo_state (1 / 2) 3 4 [0, 1])\<lparr>state_id := 6\<rparr>)) = 2
   \<and> neg_index (alpha_prev_list ((demo_state (1 / 2) 3 4 [0, 1])\<lparr>state_id := 6\<rparr>)) 2 = Inr 0"
    using predecessor_history_length [OF demo_get_predecessors,
      of "(demo_state (1 / 2) 3 4 [0, 1])\<lparr>state_id := 6\<rparr>"]
    by (simp add: demo_state_def)
  with demo_get_predecessors show ?thesis by blast
qed

end
